theory Spec2Isabelle
  imports Complex_Main "HOL-Library.Multiset"
begin

section \<open>Host values: numbers and strings\<close>

text \<open>
  The page \<^verbatim>\<open>client/pages/Index.tsx\<close> computes with ECMAScript numbers and strings.
  A number is modelled by its mathematical value, with the three special values that the
  comparisons and the subtraction of the page can meet. Rounding to binary64 is outside the
  model. Between two numbers that the engine holds, a comparison depends on their order
  and the comparator of the sort on the sign of their difference, and rounding changes
  neither. Where a number is read from a string the model has the exact value of the
  literal and the engine the nearest binary64 value, see \<open>parseInt\<close> and \<open>parseFloat\<close>.
\<close>

datatype jsnum = NaN | NegInf | Fin real | PosInf

text \<open>\<open>js_lt a b\<close> holds when \<^verbatim>\<open>a < b\<close> evaluates to true; with a NaN operand it does not.\<close>

fun js_lt :: "jsnum \<Rightarrow> jsnum \<Rightarrow> bool" where
  "js_lt NaN b = False"
| "js_lt a NaN = False"
| "js_lt NegInf NegInf = False"
| "js_lt NegInf b = True"
| "js_lt (Fin x) (Fin y) = (x < y)"
| "js_lt (Fin x) PosInf = True"
| "js_lt (Fin x) NegInf = False"
| "js_lt PosInf b = False"

text \<open>\<^verbatim>\<open>a <= b\<close> and \<^verbatim>\<open>a >= b\<close>: false with a NaN operand, otherwise the negation of
  the converse strict comparison.\<close>

definition js_le :: "jsnum \<Rightarrow> jsnum \<Rightarrow> bool" where
  "js_le a b = (a \<noteq> NaN \<and> b \<noteq> NaN \<and> \<not> js_lt b a)"

definition js_ge :: "jsnum \<Rightarrow> jsnum \<Rightarrow> bool" where
  "js_ge a b = (a \<noteq> NaN \<and> b \<noteq> NaN \<and> \<not> js_lt a b)"

text \<open>\<^verbatim>\<open>a - b\<close> on numbers.\<close>

fun js_sub :: "jsnum \<Rightarrow> jsnum \<Rightarrow> jsnum" where
  "js_sub NaN b = NaN"
| "js_sub a NaN = NaN"
| "js_sub (Fin x) (Fin y) = Fin (x - y)"
| "js_sub (Fin x) PosInf = NegInf"
| "js_sub (Fin x) NegInf = PosInf"
| "js_sub PosInf PosInf = NaN"
| "js_sub PosInf b = PosInf"
| "js_sub NegInf NegInf = NaN"
| "js_sub NegInf b = NegInf"

text \<open>
  A field of a record that should hold a number holds one or is absent (\<^verbatim>\<open>undefined\<close>);
  \<open>ToNumber\<close> is the coercion that a relational operator applies to it.
\<close>

definition ToNumber :: "jsnum option \<Rightarrow> jsnum" where
  "ToNumber v = (case v of None \<Rightarrow> NaN | Some n \<Rightarrow> n)"

text \<open>
  Strings are lists of code units below 256 (the Latin-1 range), on which the string
  built-ins used by the page are as follows.
\<close>

definition isWhiteSpace :: "char \<Rightarrow> bool" where
  "isWhiteSpace c = ((of_char c :: nat) \<in> {9, 10, 11, 12, 13, 32, 160})"

definition trimStart :: "string \<Rightarrow> string" where
  "trimStart s = dropWhile isWhiteSpace s"

definition trim :: "string \<Rightarrow> string" where
  "trim s = rev (dropWhile isWhiteSpace (rev (dropWhile isWhiteSpace s)))"

definition toLowerChar :: "char \<Rightarrow> char" where
  "toLowerChar c =
     (let n = (of_char c :: nat)
      in if (65 \<le> n \<and> n \<le> 90) \<or> (192 \<le> n \<and> n \<le> 214) \<or> (216 \<le> n \<and> n \<le> 222)
         then char_of (n + 32) else c)"

definition toLowerCase :: "string \<Rightarrow> string" where
  "toLowerCase s = map toLowerChar s"

fun startsWith :: "string \<Rightarrow> string \<Rightarrow> bool" where
  "startsWith s [] = True"
| "startsWith [] (p # ps) = False"
| "startsWith (c # cs) (p # ps) = (c = p \<and> startsWith cs ps)"

text \<open>\<^verbatim>\<open>s.includes(sub)\<close>: \<open>sub\<close> occurs in \<open>s\<close> as a contiguous run.\<close>

fun string_includes :: "string \<Rightarrow> string \<Rightarrow> bool" where
  "string_includes [] sub = (sub = [])"
| "string_includes (c # cs) sub = (startsWith (c # cs) sub \<or> string_includes cs sub)"

subsection \<open>\<^verbatim>\<open>parseInt\<close> and \<^verbatim>\<open>parseFloat\<close>\<close>

definition digitVal :: "char \<Rightarrow> nat option" where
  "digitVal c =
     (let n = (of_char c :: nat)
      in if 48 \<le> n \<and> n \<le> 57 then Some (n - 48)
         else if 97 \<le> n \<and> n \<le> 122 then Some (n - 87)
         else if 65 \<le> n \<and> n \<le> 90 then Some (n - 55)
         else None)"

definition radixDigit :: "nat \<Rightarrow> char \<Rightarrow> bool" where
  "radixDigit R c = (case digitVal c of None \<Rightarrow> False | Some d \<Rightarrow> d < R)"

definition digitsValue :: "nat \<Rightarrow> string \<Rightarrow> nat" where
  "digitsValue R ds = foldl (\<lambda>acc c. acc * R + (case digitVal c of None \<Rightarrow> 0 | Some d \<Rightarrow> d)) 0 ds"

text \<open>The sign prefix shared by both parsers: the sign and the rest of the string.\<close>

definition stripSign :: "string \<Rightarrow> real \<times> string" where
  "stripSign s =
     (case s of
        [] \<Rightarrow> (1, [])
      | c # cs \<Rightarrow> if c = CHR ''-'' then (-1, cs) else if c = CHR ''+'' then (1, cs) else (1, s))"

text \<open>
  \<^verbatim>\<open>parseInt(string)\<close> with no radix: leading white space is dropped, then a sign, then a
  \<^verbatim>\<open>0x\<close> or \<^verbatim>\<open>0X\<close> prefix (which selects radix 16); the value is that of the longest run of
  digits of the radix, and NaN when that run is empty. The value is the exact integer; the
  engine rounds it to binary64, which changes integers beyond \<open>2 ^ 53\<close> only. Which strings
  give NaN is the same in both.
\<close>

definition parseInt :: "string \<Rightarrow> jsnum" where
  "parseInt string =
     (let (sign, S) = stripSign (trimStart string);
          hex = (take 2 S = ''0x'' \<or> take 2 S = ''0X'');
          R = (if hex then 16 else 10);
          S = (if hex then drop 2 S else S);
          Z = takeWhile (radixDigit R) S
      in if Z = [] then NaN else Fin (sign * real (digitsValue R Z)))"

text \<open>The exponent part \<^verbatim>\<open>e[+-]digits\<close> at the head of \<open>s\<close>, or 0 when there is none.\<close>

definition exponentPart :: "string \<Rightarrow> int" where
  "exponentPart s =
     (case s of
        [] \<Rightarrow> 0
      | c # cs \<Rightarrow>
          if c = CHR ''e'' \<or> c = CHR ''E'' then
            (let (sign, r) = stripSign cs; ds = takeWhile (radixDigit 10) r
             in if ds = [] then 0
                else (if sign < 0 then - int (digitsValue 10 ds) else int (digitsValue 10 ds)))
          else 0)"

definition pow10 :: "int \<Rightarrow> real" where
  "pow10 e = (if 0 \<le> e then 10 ^ nat e else 1 / 10 ^ nat (- e))"

text \<open>
  \<^verbatim>\<open>parseFloat(string)\<close>: leading white space is dropped; the value is that of the longest
  prefix that is a decimal literal (a sign, then \<^verbatim>\<open>Infinity\<close>, or digits with an optional
  fraction and exponent, or a fraction starting with the point), and NaN when there is none.
  The value is the exact value of the literal; the engine rounds it to the nearest binary64
  value, so that there a literal beyond the range reads as an infinity and one with more
  digits than binary64 holds as its neighbour. Which strings give NaN is the same in both.
\<close>

definition parseFloat :: "string \<Rightarrow> jsnum" where
  "parseFloat string =
     (let (sign, S) = stripSign (trimStart string)
      in if startsWith S ''Infinity'' then (if sign < 0 then NegInf else PosInf)
         else
           (let ip = takeWhile (radixDigit 10) S;
                r1 = dropWhile (radixDigit 10) S;
                hasPoint = (r1 \<noteq> [] \<and> hd r1 = CHR ''.'');
                fp = (if hasPoint then takeWhile (radixDigit 10) (tl r1) else []);
                r2 = (if hasPoint then dropWhile (radixDigit 10) (tl r1) else r1)
            in if ip = [] \<and> fp = [] then NaN
               else Fin (sign * (real (digitsValue 10 (ip @ fp)) / 10 ^ length fp)
                          * pow10 (exponentPart r2))))"

section \<open>The data model\<close>

text \<open>
  \<^verbatim>\<open>interface CutoffData\<close>. The data comes from the network unchecked, and the page guards
  its reads (\<^verbatim>\<open>item["Institute Name"] || ""\<close>, \<^verbatim>\<open>typeof aValue === "number"\<close>), so every
  field is either a value of its declared type or absent.
\<close>

record CutoffData =
  Rank :: "jsnum option"
  Percentile :: "jsnum option"
  Choice_Code :: "string option"
  Institute_Name :: "string option"
  Course_Name :: "string option"
  Type :: "string option"

datatype SortField = SortRank | SortPercentile

datatype SortOrder = Asc | Desc

definition itemsPerPage :: int where
  "itemsPerPage = 20"

section \<open>The query pipeline\<close>

subsection \<open>Threshold stage\<close>

text \<open>The callback of \<^verbatim>\<open>data.filter\<close>; a filter string is truthy when it is not empty.\<close>

definition thresholdCallback :: "string \<Rightarrow> string \<Rightarrow> CutoffData \<Rightarrow> bool" where
  "thresholdCallback rankFilter percentileFilter item =
     (let userRank = (if rankFilter \<noteq> [] then Some (parseInt rankFilter) else None);
          userPercentile =
            (if percentileFilter \<noteq> [] then Some (parseFloat percentileFilter) else None);
          matches = False;
          matches = (case userPercentile of
                       None \<Rightarrow> matches
                     | Some p \<Rightarrow> matches \<or> js_le (ToNumber (Percentile item)) p);
          matches = (case userRank of
                       None \<Rightarrow> matches
                     | Some r \<Rightarrow> matches \<or> js_ge (ToNumber (Rank item)) r)
      in matches)"

definition thresholdStage :: "string \<Rightarrow> string \<Rightarrow> CutoffData list \<Rightarrow> CutoffData list" where
  "thresholdStage rankFilter percentileFilter data =
     (if rankFilter \<noteq> [] \<or> percentileFilter \<noteq> []
      then filter (thresholdCallback rankFilter percentileFilter) data
      else data)"

subsection \<open>Search stage\<close>

text \<open>\<^verbatim>\<open>v || ""\<close> on a name field.\<close>

definition orEmpty :: "string option \<Rightarrow> string" where
  "orEmpty v = (case v of None \<Rightarrow> [] | Some s \<Rightarrow> if s = [] then [] else s)"

definition searchCallback :: "string \<Rightarrow> CutoffData \<Rightarrow> bool" where
  "searchCallback searchLower item =
     (let instituteName = orEmpty (Institute_Name item);
          courseName = orEmpty (Course_Name item)
      in string_includes (toLowerCase instituteName) searchLower
         \<or> string_includes (toLowerCase courseName) searchLower)"

definition searchStage :: "string \<Rightarrow> CutoffData list \<Rightarrow> CutoffData list" where
  "searchStage searchFilter filtered =
     (if trim searchFilter \<noteq> []
      then (let searchLower = trim (toLowerCase searchFilter)
            in filter (searchCallback searchLower) filtered)
      else filtered)"

subsection \<open>Sort stage\<close>

definition sortKey :: "SortField \<Rightarrow> CutoffData \<Rightarrow> jsnum option" where
  "sortKey sortField a = (case sortField of SortRank \<Rightarrow> Rank a | SortPercentile \<Rightarrow> Percentile a)"

text \<open>The comparator passed to \<^verbatim>\<open>filtered.sort\<close>.\<close>

definition compareFn :: "SortField \<Rightarrow> SortOrder \<Rightarrow> CutoffData \<Rightarrow> CutoffData \<Rightarrow> jsnum" where
  "compareFn sortField sortOrder a b =
     (let aValue = sortKey sortField a; bValue = sortKey sortField b
      in case (aValue, bValue) of
           (Some x, Some y) \<Rightarrow> (if sortOrder = Asc then js_sub x y else js_sub y x)
         | _ \<Rightarrow> Fin 0)"

text \<open>
  \<^verbatim>\<open>Array.prototype.sort\<close> is a stable sort: it reads the comparator's result \<open>v\<close> as "the
  first argument goes after the second" when \<open>v > 0\<close>, and a NaN result as \<open>+0\<close>. It is
  modelled as a stable insertion sort. For a comparator that is a consistent ordering of
  the elements every stable sort returns the same list, so there the model is the engine.
  For one that is not, the language leaves the order to the engine, and an engine may
  return another arrangement of the same elements than the model does; the comparator of
  the page is of that kind on a list that holds records with a number in the sort field
  next to records without one. On such lists only what holds of every arrangement, or of
  a list on which the engines agree, is stated below.
\<close>

definition SortCompare :: "('a \<Rightarrow> 'a \<Rightarrow> jsnum) \<Rightarrow> 'a \<Rightarrow> 'a \<Rightarrow> jsnum" where
  "SortCompare comparator x y = (let v = comparator x y in if v = NaN then Fin 0 else v)"

fun insertSorted :: "('a \<Rightarrow> 'a \<Rightarrow> jsnum) \<Rightarrow> 'a \<Rightarrow> 'a list \<Rightarrow> 'a list" where
  "insertSorted comparator x [] = [x]"
| "insertSorted comparator x (y # ys) =
     (if js_lt (Fin 0) (SortCompare comparator x y)
      then y # insertSorted comparator x ys
      else x # y # ys)"

definition array_sort :: "('a \<Rightarrow> 'a \<Rightarrow> jsnum) \<Rightarrow> 'a list \<Rightarrow> 'a list" where
  "array_sort comparator xs = foldr (insertSorted comparator) xs []"

definition sortStage :: "SortField \<Rightarrow> SortOrder \<Rightarrow> CutoffData list \<Rightarrow> CutoffData list" where
  "sortStage sortField sortOrder filtered = array_sort (compareFn sortField sortOrder) filtered"

text \<open>The body of the \<^verbatim>\<open>useMemo\<close> that computes \<^verbatim>\<open>filteredAndSortedData\<close>, on the contents
  of the arrays.\<close>

definition filteredAndSortedData ::
  "CutoffData list \<Rightarrow> string \<Rightarrow> string \<Rightarrow> string \<Rightarrow> SortField \<Rightarrow> SortOrder \<Rightarrow> CutoffData list" where
  "filteredAndSortedData data rankFilter percentileFilter searchFilter sortField sortOrder =
     (let filtered = thresholdStage rankFilter percentileFilter data;
          filtered = searchStage searchFilter filtered
      in sortStage sortField sortOrder filtered)"

subsection \<open>Pagination\<close>

text \<open>\<^verbatim>\<open>xs.slice(start, fin)\<close> for integer arguments: a negative index counts from the end,
  and both indices are clamped to the array.\<close>

definition slice :: "'a list \<Rightarrow> int \<Rightarrow> int \<Rightarrow> 'a list" where
  "slice xs start fin =
     (let len = int (length xs);
          k = (if start < 0 then max (len + start) 0 else min start len);
          final = (if fin < 0 then max (len + fin) 0 else min fin len)
      in take (nat (final - k)) (drop (nat k) xs))"

definition paginatedData :: "'a list \<Rightarrow> int \<Rightarrow> 'a list" where
  "paginatedData filtered currentPage =
     (let startIndex = (currentPage - 1) * itemsPerPage
      in slice filtered startIndex (startIndex + itemsPerPage))"

definition totalPages :: "'a list \<Rightarrow> int" where
  "totalPages filtered = \<lceil>real (length filtered) / real_of_int itemsPerPage\<rceil>"


text \<open>What one render shows: the visible rows, the number of matches, the number of pages.\<close>

definition queryPipeline ::
  "CutoffData list \<Rightarrow> string \<Rightarrow> string \<Rightarrow> string \<Rightarrow> SortField \<Rightarrow> SortOrder \<Rightarrow> int
     \<Rightarrow> CutoffData list \<times> nat \<times> int" where
  "queryPipeline data rankFilter percentileFilter searchFilter sortField sortOrder currentPage =
     (let filtered =
            filteredAndSortedData data rankFilter percentileFilter searchFilter sortField sortOrder
      in (paginatedData filtered currentPage, length filtered, totalPages filtered))"

section \<open>The pipeline on the store\<close>

text \<open>
  Arrays and records are objects of the engine, reached through references: a record is an
  index into \<open>objects\<close>, an array an index into \<open>arrays\<close>, and an array holds references to
  its records. The spread \<^verbatim>\<open>[...data]\<close>, \<^verbatim>\<open>filter\<close> and \<^verbatim>\<open>slice\<close> allocate a new array;
  \<^verbatim>\<open>sort\<close> overwrites the array it is called on.
\<close>

type_synonym ref = nat

record Heap =
  objects :: "CutoffData list"
  arrays :: "ref list list"

definition deref :: "Heap \<Rightarrow> ref \<Rightarrow> CutoffData" where
  "deref h r = objects h ! r"

definition readArray :: "Heap \<Rightarrow> ref \<Rightarrow> ref list" where
  "readArray h a = arrays h ! a"

definition newArray :: "Heap \<Rightarrow> ref list \<Rightarrow> ref \<times> Heap" where
  "newArray h xs = (length (arrays h), h\<lparr>arrays := arrays h @ [xs]\<rparr>)"

definition writeArray :: "Heap \<Rightarrow> ref \<Rightarrow> ref list \<Rightarrow> Heap" where
  "writeArray h a xs = h\<lparr>arrays := (arrays h)[a := xs]\<rparr>"

text \<open>The contents of an array, as the list of records that the pipeline above works on.\<close>

definition contents :: "Heap \<Rightarrow> ref \<Rightarrow> CutoffData list" where
  "contents h a = map (deref h) (readArray h a)"

definition filteredAndSortedData_heap ::
  "Heap \<Rightarrow> ref \<Rightarrow> string \<Rightarrow> string \<Rightarrow> string \<Rightarrow> SortField \<Rightarrow> SortOrder \<Rightarrow> ref \<times> Heap" where
  "filteredAndSortedData_heap h0 data rankFilter percentileFilter searchFilter sortField sortOrder =
     (let (filtered, h) = newArray h0 (readArray h0 data);
          (filtered, h) =
            (if rankFilter \<noteq> [] \<or> percentileFilter \<noteq> []
             then newArray h
                    (filter (\<lambda>item. thresholdCallback rankFilter percentileFilter (deref h item))
                       (readArray h data))
             else (filtered, h));
          (filtered, h) =
            (if trim searchFilter \<noteq> []
             then (let searchLower = trim (toLowerCase searchFilter)
                   in newArray h
                        (filter (\<lambda>item. searchCallback searchLower (deref h item))
                           (readArray h filtered)))
             else (filtered, h));
          h = writeArray h filtered
                (array_sort (\<lambda>a b. compareFn sortField sortOrder (deref h a) (deref h b))
                   (readArray h filtered))
      in (filtered, h))"

definition paginatedData_heap :: "Heap \<Rightarrow> ref \<Rightarrow> int \<Rightarrow> ref \<times> Heap" where
  "paginatedData_heap h filtered currentPage =
     (let startIndex = (currentPage - 1) * itemsPerPage
      in newArray h (slice (readArray h filtered) startIndex (startIndex + itemsPerPage)))"

text \<open>One render: both computations, one after the other; and a session of renders over
  the same dataset, each with its own filters, sort criteria and page number.\<close>

definition renderOnce_heap ::
  "Heap \<Rightarrow> ref \<Rightarrow> string \<times> string \<times> string \<times> SortField \<times> SortOrder \<times> int \<Rightarrow> Heap" where
  "renderOnce_heap h dataRef inputs =
     (case inputs of (rf, pf, sf, fld, ord, page) \<Rightarrow>
        (let (filtered, h1) = filteredAndSortedData_heap h dataRef rf pf sf fld ord;
             (visible, h2) = paginatedData_heap h1 filtered page
         in h2))"

definition session_heap ::
  "Heap \<Rightarrow> ref \<Rightarrow> (string \<times> string \<times> string \<times> SortField \<times> SortOrder \<times> int) list \<Rightarrow> Heap" where
  "session_heap h dataRef inputs = foldl (\<lambda>h' i. renderOnce_heap h' dataRef i) h inputs"

text \<open>The store \<open>h'\<close> has the records of \<open>h\<close> and, in their places, its arrays.\<close>

definition extends :: "Heap \<Rightarrow> Heap \<Rightarrow> bool" where
  "extends h h' =
     (objects h' = objects h \<and> length (arrays h) \<le> length (arrays h')
      \<and> take (length (arrays h)) (arrays h') = arrays h)"

section \<open>The component state and its handlers\<close>

text \<open>
  The \<^verbatim>\<open>useState\<close> variables of \<^verbatim>\<open>Index\<close>. The type of \<open>data\<close> is a parameter: the
  handlers work on an array of records, while \<^verbatim>\<open>fetchData\<close> stores whatever the network
  returned.
\<close>

record 'd State =
  data :: 'd
  loading :: bool
  error :: "string option"
  rankFilter :: string
  percentileFilter :: string
  searchFilter :: string
  sortField :: SortField
  sortOrder :: SortOrder
  currentPage :: int

definition initialState :: "'d \<Rightarrow> 'd State" where
  "initialState emptyArray =
     \<lparr>data = emptyArray, loading = True, error = None, rankFilter = [], percentileFilter = [],
      searchFilter = [], sortField = SortRank, sortOrder = Asc, currentPage = 1\<rparr>"

definition filteredOf :: "CutoffData list State \<Rightarrow> CutoffData list" where
  "filteredOf st =
     filteredAndSortedData (data st) (rankFilter st) (percentileFilter st) (searchFilter st)
       (sortField st) (sortOrder st)"

definition handleSort :: "SortField \<Rightarrow> 'd State \<Rightarrow> 'd State" where
  "handleSort field st =
     (let st = (if field = sortField st
                then st\<lparr>sortOrder := (if sortOrder st = Asc then Desc else Asc)\<rparr>
                else st\<lparr>sortField := field, sortOrder := Asc\<rparr>)
      in st\<lparr>currentPage := 1\<rparr>)"

definition clearFilters :: "'d State \<Rightarrow> 'd State" where
  "clearFilters st =
     st\<lparr>rankFilter := [], percentileFilter := [], searchFilter := [], currentPage := 1\<rparr>"

definition hasActiveFilters :: "'d State \<Rightarrow> bool" where
  "hasActiveFilters st = (rankFilter st \<noteq> [] \<or> percentileFilter st \<noteq> [] \<or> searchFilter st \<noteq> [])"

text \<open>
  The user's actions on the rendered page. The inputs and the table are rendered only when
  the page is neither loading nor showing an error, the button "Clear All" only with an
  active filter, the pagination only with more than one page, and "Previous" and "Next"
  are disabled on the first and on the last page; an action on a control that is not there
  leaves the state as it is.
\<close>

datatype Event =
    ChangeRank string
  | ChangePercentile string
  | ChangeSearch string
  | ClickSort SortField
  | ClickClear
  | ClickPrevious
  | ClickNext

definition tableShown :: "'d State \<Rightarrow> bool" where
  "tableShown st = (\<not> loading st \<and> (error st = None \<or> error st = Some []))"

definition step :: "Event \<Rightarrow> CutoffData list State \<Rightarrow> CutoffData list State" where
  "step e st =
     (if \<not> tableShown st then st
      else case e of
        ChangeRank v \<Rightarrow> st\<lparr>rankFilter := v\<rparr>
      | ChangePercentile v \<Rightarrow> st\<lparr>percentileFilter := v\<rparr>
      | ChangeSearch v \<Rightarrow> st\<lparr>searchFilter := v\<rparr>
      | ClickSort field \<Rightarrow> handleSort field st
      | ClickClear \<Rightarrow> (if hasActiveFilters st then clearFilters st else st)
      | ClickPrevious \<Rightarrow>
          (if totalPages (filteredOf st) > 1 \<and> currentPage st \<noteq> 1
           then st\<lparr>currentPage := max (currentPage st - 1) 1\<rparr> else st)
      | ClickNext \<Rightarrow>
          (if totalPages (filteredOf st) > 1 \<and> currentPage st \<noteq> totalPages (filteredOf st)
           then st\<lparr>currentPage := min (currentPage st + 1) (totalPages (filteredOf st))\<rparr>
           else st))"

definition runEvents :: "CutoffData list State \<Rightarrow> Event list \<Rightarrow> CutoffData list State" where
  "runEvents st es = foldl (\<lambda>s e. step e s) st es"

subsection \<open>Rendering with \<^verbatim>\<open>useMemo\<close>\<close>

text \<open>
  \<^verbatim>\<open>useMemo(compute, deps)\<close> keeps the dependencies and the value of the last computation
  and returns the kept value when the dependencies are the same. Here dependencies are the
  same when they are equal values; the library asks for the same references, which are
  equal values too, so it recomputes at least as often.
\<close>

definition useMemo :: "'v \<Rightarrow> 'k \<Rightarrow> ('k \<times> 'v) option \<Rightarrow> 'v \<times> ('k \<times> 'v) option" where
  "useMemo v deps cell =
     (case cell of
        None \<Rightarrow> (v, Some (deps, v))
      | Some (d, kept) \<Rightarrow> if d = deps then (kept, cell) else (v, Some (deps, v)))"

record Hooks =
  memoFiltered ::
    "((CutoffData list \<times> string \<times> string \<times> string \<times> SortField \<times> SortOrder) \<times> CutoffData list) option"
  memoPaginated :: "((CutoffData list \<times> int) \<times> CutoffData list) option"

definition noHooks :: Hooks where
  "noHooks = \<lparr>memoFiltered = None, memoPaginated = None\<rparr>"

definition render :: "CutoffData list State \<Rightarrow> Hooks \<Rightarrow> (CutoffData list \<times> nat \<times> int) \<times> Hooks" where
  "render st hk =
     (let (filtered, m1) =
            useMemo (filteredOf st)
              (data st, rankFilter st, percentileFilter st, searchFilter st, sortField st,
               sortOrder st)
              (memoFiltered hk);
          (paginated, m2) =
            useMemo (paginatedData filtered (currentPage st)) (filtered, currentPage st)
              (memoPaginated hk)
      in ((paginated, length filtered, totalPages filtered),
          \<lparr>memoFiltered = m1, memoPaginated = m2\<rparr>))"

text \<open>The hooks after the component has rendered in each state of a list, in turn.\<close>

definition hooksAfter :: "CutoffData list State list \<Rightarrow> Hooks" where
  "hooksAfter sts = foldl (\<lambda>hk st. snd (render st hk)) noHooks sts"

text \<open>Every kept value is the value of its computation on the kept dependencies.\<close>

definition hooks_ok :: "Hooks \<Rightarrow> bool" where
  "hooks_ok hk =
     ((case memoFiltered hk of
         None \<Rightarrow> True
       | Some ((d, rf, pf, sf, fld, ord), v) \<Rightarrow> v = filteredAndSortedData d rf pf sf fld ord)
      \<and> (case memoPaginated hk of
            None \<Rightarrow> True
          | Some ((f, p), v) \<Rightarrow> v = paginatedData f p))"

text \<open>The state once \<^verbatim>\<open>fetchData\<close> has stored an array of records.\<close>

definition loadedState :: "CutoffData list \<Rightarrow> CutoffData list State" where
  "loadedState d = (initialState [])\<lparr>data := d, loading := False\<rparr>"

section \<open>Loading the data\<close>

text \<open>A value produced by \<^verbatim>\<open>response.json()\<close> or \<^verbatim>\<open>JSON.parse\<close>, and \<^verbatim>\<open>undefined\<close>.\<close>

datatype jsval =
    JUndefined
  | JNull
  | JBool bool
  | JNumber jsnum
  | JString string
  | JArray "jsval list"
  | JObject "(string \<times> jsval) list"

text \<open>An awaited call either throws (or rejects) or returns.\<close>

datatype 'a completion = Throw | Normal 'a

record Response =
  ok :: bool
  json :: "jsval completion"

definition isArray :: "jsval \<Rightarrow> bool" where
  "isArray v = (case v of JArray xs \<Rightarrow> True | _ \<Rightarrow> False)"

definition truthy :: "jsval \<Rightarrow> bool" where
  "truthy v =
     (case v of
        JUndefined \<Rightarrow> False
      | JNull \<Rightarrow> False
      | JBool b \<Rightarrow> b
      | JNumber n \<Rightarrow> n \<noteq> NaN \<and> n \<noteq> Fin 0
      | JString s \<Rightarrow> s \<noteq> []
      | JArray xs \<Rightarrow> True
      | JObject kvs \<Rightarrow> True)"

text \<open>\<^verbatim>\<open>proxyData.contents\<close>: a TypeError on \<^verbatim>\<open>null\<close>, the property of an object when it has
  one, \<^verbatim>\<open>undefined\<close> otherwise.\<close>

definition getContents :: "jsval \<Rightarrow> jsval completion" where
  "getContents proxyData =
     (case proxyData of
        JUndefined \<Rightarrow> Throw
      | JNull \<Rightarrow> Throw
      | JObject kvs \<Rightarrow> Normal (case map_of kvs ''contents'' of None \<Rightarrow> JUndefined | Some v \<Rightarrow> v)
      | _ \<Rightarrow> Normal JUndefined)"

definition hexDigit :: "nat \<Rightarrow> char" where
  "hexDigit n = (if n < 10 then char_of (48 + n) else char_of (55 + n))"

definition percentByte :: "nat \<Rightarrow> string" where
  "percentByte n = [CHR ''%'', hexDigit (n div 16), hexDigit (n mod 16)]"

definition uriUnreserved :: "char \<Rightarrow> bool" where
  "uriUnreserved c =
     (let n = (of_char c :: nat)
      in (48 \<le> n \<and> n \<le> 57) \<or> (65 \<le> n \<and> n \<le> 90) \<or> (97 \<le> n \<and> n \<le> 122)
         \<or> c \<in> set ''-_.!~*()'' \<or> n = 39)"

text \<open>\<^verbatim>\<open>encodeURIComponent\<close>: every code unit but the unreserved ones is replaced by the
  escaped bytes of its UTF-8 encoding.\<close>

definition encodeURIComponent :: "string \<Rightarrow> string" where
  "encodeURIComponent s =
     concat (map (\<lambda>c. let n = (of_char c :: nat)
                      in if uriUnreserved c then [c]
                         else if n < 128 then percentByte n
                         else percentByte (192 + n div 64) @ percentByte (128 + n mod 64)) s)"

definition corsProxies :: "string list" where
  "corsProxies =
     [''https://api.allorigins.win/get?url='',
      ''https://corsproxy.io/?'',
      ''https://api.codetabs.com/v1/proxy?quest='']"

definition dataUrl :: string where
  "dataUrl = ''https://drive.google.com/uc?export=download&id=1j2VzL9OBR8rVb5DD_4wgvIlE7bCzVI-n''"

text \<open>
  What one candidate source does to the run of \<^verbatim>\<open>fetchData\<close>: it stores a value with
  \<^verbatim>\<open>setData\<close> and returns, or it passes on to the next candidate. The network is the
  function \<open>fetch\<close> from the address to what the request does, and \<open>JSON_parse\<close> is the
  built-in parser applied to its argument.
\<close>

datatype attempt = Loaded jsval | NextCandidate

definition serverAttempt :: "(string \<Rightarrow> Response completion) \<Rightarrow> attempt" where
  "serverAttempt fetch =
     (case fetch ''/api/cutoffs'' of
        Throw \<Rightarrow> NextCandidate
      | Normal response \<Rightarrow>
          if ok response
          then (case json response of Throw \<Rightarrow> NextCandidate | Normal jsonData \<Rightarrow> Loaded jsonData)
          else NextCandidate)"

definition proxyAttempt ::
  "(string \<Rightarrow> Response completion) \<Rightarrow> (jsval \<Rightarrow> jsval completion) \<Rightarrow> string \<Rightarrow> attempt" where
  "proxyAttempt fetch JSON_parse proxy =
     (case fetch (proxy @ encodeURIComponent dataUrl) of
        Throw \<Rightarrow> NextCandidate
      | Normal response \<Rightarrow>
          (case (if string_includes proxy ''allorigins''
                 then (if ok response
                       then (case json response of
                               Throw \<Rightarrow> Throw
                             | Normal proxyData \<Rightarrow>
                                 (case getContents proxyData of
                                    Throw \<Rightarrow> Throw
                                  | Normal c \<Rightarrow> JSON_parse c))
                       else Normal JUndefined)
                 else (if ok response then json response else Normal JUndefined)) of
             Throw \<Rightarrow> NextCandidate
           | Normal jsonData \<Rightarrow>
               if truthy jsonData \<and> isArray jsonData then Loaded jsonData else NextCandidate))"

fun tryProxies ::
  "(string \<Rightarrow> Response completion) \<Rightarrow> (jsval \<Rightarrow> jsval completion) \<Rightarrow> string list \<Rightarrow> attempt" where
  "tryProxies fetch JSON_parse [] = NextCandidate"
| "tryProxies fetch JSON_parse (proxy # proxies) =
     (case proxyAttempt fetch JSON_parse proxy of
        Loaded jsonData \<Rightarrow> Loaded jsonData
      | NextCandidate \<Rightarrow> tryProxies fetch JSON_parse proxies)"

definition directAttempt :: "(string \<Rightarrow> Response completion) \<Rightarrow> attempt" where
  "directAttempt fetch =
     (case fetch dataUrl of
        Throw \<Rightarrow> NextCandidate
      | Normal response \<Rightarrow>
          if ok response
          then (case json response of Throw \<Rightarrow> NextCandidate | Normal jsonData \<Rightarrow> Loaded jsonData)
          else NextCandidate)"

definition fetchData ::
  "(string \<Rightarrow> Response completion) \<Rightarrow> (jsval \<Rightarrow> jsval completion) \<Rightarrow> jsval State \<Rightarrow> jsval State" where
  "fetchData fetch JSON_parse st0 =
     (let st = st0\<lparr>loading := True\<rparr>
      in case serverAttempt fetch of
           Loaded jsonData \<Rightarrow> st\<lparr>data := jsonData, loading := False\<rparr>
         | NextCandidate \<Rightarrow>
             (case tryProxies fetch JSON_parse corsProxies of
                Loaded jsonData \<Rightarrow> st\<lparr>data := jsonData, loading := False\<rparr>
              | NextCandidate \<Rightarrow>
                  (case directAttempt fetch of
                     Loaded jsonData \<Rightarrow> st\<lparr>data := jsonData, loading := False\<rparr>
                   | NextCandidate \<Rightarrow>
                       st\<lparr>error := Some ''All data sources failed. Please try again later.'',
                          loading := False\<rparr>)))"

section \<open>Notions and examples for the statements\<close>

text \<open>A record with every field present, for the examples.\<close>

definition sampleRecord :: "real \<Rightarrow> real \<Rightarrow> string \<Rightarrow> string \<Rightarrow> CutoffData" where
  "sampleRecord rank percentile institute course =
     \<lparr>Rank = Some (Fin rank), Percentile = Some (Fin percentile), Choice_Code = Some ''0000'',
      Institute_Name = Some institute, Course_Name = Some course, Type = Some ''AI''\<rparr>"

text \<open>The text of a name field, a missing field being the empty string.\<close>

definition fieldText :: "string option \<Rightarrow> string" where
  "fieldText v = (case v of None \<Rightarrow> [] | Some s \<Rightarrow> s)"

text \<open>\<open>sub\<close> is a substring of \<open>s\<close> when the case of letters is ignored.\<close>

definition ciSubstring :: "string \<Rightarrow> string \<Rightarrow> bool" where
  "ciSubstring sub s = string_includes (toLowerCase s) (toLowerCase sub)"

text \<open>The record has a number other than NaN in the sort field.\<close>

definition numericKey :: "SortField \<Rightarrow> CutoffData \<Rightarrow> bool" where
  "numericKey fld x = (case sortKey fld x of None \<Rightarrow> False | Some v \<Rightarrow> v \<noteq> NaN)"

text \<open>The order that the sort is to establish: \<open>a\<close> may stand before \<open>b\<close>.\<close>

definition keyOrder :: "SortField \<Rightarrow> SortOrder \<Rightarrow> CutoffData \<Rightarrow> CutoffData \<Rightarrow> bool" where
  "keyOrder fld ord a b =
     (if ord = Asc then js_le (ToNumber (sortKey fld a)) (ToNumber (sortKey fld b))
      else js_ge (ToNumber (sortKey fld a)) (ToNumber (sortKey fld b)))"

text \<open>Three rows, the one in the middle without a percentile.\<close>

definition rowFour :: CutoffData where
  "rowFour = sampleRecord 1 4 ''a'' ''A''"

definition rowAbsent :: CutoffData where
  "rowAbsent = (sampleRecord 2 0 ''c'' ''C'')\<lparr>Percentile := None\<rparr>"

definition rowThree :: CutoffData where
  "rowThree = sampleRecord 3 3 ''b'' ''B''"

text \<open>Datasets and stores for the examples.\<close>

definition dataset41 :: "CutoffData list" where
  "dataset41 = sampleRecord 1 99 ''Alpha'' ''X'' # replicate 40 (sampleRecord 2 98 ''Beta'' ''Y'')"

definition sampleHeap :: Heap where
  "sampleHeap =
     \<lparr>objects = [sampleRecord 5 50 ''A'' ''X'', sampleRecord 2 80 ''B'' ''Y'',
                 sampleRecord 9 20 ''C'' ''Z''],
      arrays = [[0, 1, 2]]\<rparr>"

text \<open>A network where only the local endpoint answers, with a JSON object.\<close>

definition objectServer :: "string \<Rightarrow> Response completion" where
  "objectServer url =
     (if url = ''/api/cutoffs''
      then Normal \<lparr>ok = True, json = Normal (JObject [(''error'', JString ''unavailable'')])\<rparr>
      else Throw)"

section \<open>Auxiliary facts\<close>

subsection \<open>Strings\<close>

lemma startsWith_iff: "startsWith s p \<longleftrightarrow> (\<exists>q. s = p @ q)"
  by (induction s p rule: startsWith.induct) auto

lemma string_includes_iff: "string_includes s sub \<longleftrightarrow> (\<exists>p q. s = p @ sub @ q)"
proof (induction s)
  case Nil
  then show ?case by simp
next
  case (Cons c cs)
  show ?case
  proof
    assume "string_includes (c # cs) sub"
    then consider "startsWith (c # cs) sub" | "string_includes cs sub" by auto
    then show "\<exists>p q. c # cs = p @ sub @ q"
    proof cases
      case 1
      then obtain q where "c # cs = sub @ q" by (auto simp: startsWith_iff)
      then have "c # cs = [] @ sub @ q" by simp
      then show ?thesis by blast
    next
      case 2
      then obtain p q where "cs = p @ sub @ q" using Cons.IH by blast
      then have "c # cs = (c # p) @ sub @ q" by simp
      then show ?thesis by blast
    qed
  next
    assume "\<exists>p q. c # cs = p @ sub @ q"
    then obtain p q where pq: "c # cs = p @ sub @ q" by blast
    show "string_includes (c # cs) sub"
    proof (cases p)
      case Nil
      with pq have "startsWith (c # cs) sub" by (auto simp: startsWith_iff)
      then show ?thesis by simp
    next
      case (Cons a p')
      with pq have "cs = p' @ sub @ q" by simp
      then have "string_includes cs sub" using Cons.IH by blast
      then show ?thesis by simp
    qed
  qed
qed

lemma isWhiteSpace_toLowerChar: "isWhiteSpace (toLowerChar c) = isWhiteSpace c"
proof -
  have "(of_char c :: nat) < 256" by (simp add: of_char_def) 
  then show ?thesis
    by (auto simp: isWhiteSpace_def toLowerChar_def Let_def)
qed

lemma toLowerCase_trim: "trim (toLowerCase s) = toLowerCase (trim s)"
  apply (simp add: trim_def toLowerCase_def dropWhile_map rev_map comp_def isWhiteSpace_toLowerChar)
  done

subsection \<open>The sort\<close>

lemma length_insertSorted: "length (insertSorted c x ys) = Suc (length ys)"
  by (induction ys) auto

lemma mset_insertSorted: "mset (insertSorted c x ys) = add_mset x (mset ys)"
  by (induction ys) auto

lemma mset_array_sort: "mset (array_sort c xs) = mset xs"
  by (induction xs) (auto simp: array_sort_def mset_insertSorted)

lemma length_array_sort: "length (array_sort c xs) = length xs"
  by (metis mset_array_sort size_mset)

lemma js_lt_irrefl: "\<not> js_lt a a"
  by (cases a) auto

lemma js_sub_self: "js_sub v v = NaN \<or> js_sub v v = Fin 0"
  by (cases v) auto

lemma SortCompare_same_key:
  "sortKey fld x = sortKey fld y \<Longrightarrow> \<not> js_lt (Fin 0) (SortCompare (compareFn fld ord) x y)"
  using js_sub_self [of "the (sortKey fld y)"]
  by (auto simp: SortCompare_def compareFn_def Let_def split: option.splits)

lemma after_iff:
  assumes "numericKey fld x" and "numericKey fld y"
  shows "js_lt (Fin 0) (SortCompare (compareFn fld ord) x y) = (\<not> keyOrder fld ord x y)"
proof -
  obtain a b where "sortKey fld x = Some a" "a \<noteq> NaN" "sortKey fld y = Some b" "b \<noteq> NaN"
    using assms by (auto simp: numericKey_def split: option.splits)
  then show ?thesis
    by (cases a; cases b; cases ord)
       (auto simp: SortCompare_def compareFn_def keyOrder_def js_le_def js_ge_def ToNumber_def)
qed

lemma js_lt_trans: "js_lt a b \<Longrightarrow> js_lt b c \<Longrightarrow> js_lt a c"
  by (cases a; cases b; cases c) auto

lemma js_lt_total: "a \<noteq> NaN \<Longrightarrow> b \<noteq> NaN \<Longrightarrow> js_lt a b \<or> a = b \<or> js_lt b a"
  by (cases a; cases b) auto

lemma keyOrder_total:
  "numericKey fld x \<Longrightarrow> numericKey fld y \<Longrightarrow> \<not> keyOrder fld ord x y \<Longrightarrow> keyOrder fld ord y x"
  apply (auto simp: numericKey_def keyOrder_def js_le_def js_ge_def ToNumber_def split: option.splits)
  using js_lt_trans js_lt_irrefl apply blast+
  done

lemma keyOrder_trans:
  "numericKey fld x \<Longrightarrow> numericKey fld y \<Longrightarrow> numericKey fld z \<Longrightarrow>
   keyOrder fld ord x y \<Longrightarrow> keyOrder fld ord y z \<Longrightarrow> keyOrder fld ord x z"
  apply (auto simp: numericKey_def keyOrder_def js_le_def js_ge_def ToNumber_def split: option.splits)
  using js_lt_trans js_lt_total apply metis+
  done

lemma set_insertSorted: "set (insertSorted c x ys) = insert x (set ys)"
  by (induction ys) auto

lemma sorted_insertSorted:
  "numericKey fld x \<Longrightarrow> \<forall>y\<in>set ys. numericKey fld y \<Longrightarrow> sorted_wrt (keyOrder fld ord) ys \<Longrightarrow>
   sorted_wrt (keyOrder fld ord) (insertSorted (compareFn fld ord) x ys)"
proof (induction ys)
  case Nil
  then show ?case by simp
next
  case (Cons y ys)
  show ?case
  proof (cases "keyOrder fld ord x y")
    case True
    have "\<forall>z\<in>set ys. keyOrder fld ord x z"
    proof
      fix z assume z: "z \<in> set ys"
      with Cons.prems have "keyOrder fld ord y z" by simp
      with True show "keyOrder fld ord x z"
        using keyOrder_trans [of fld x y z ord] Cons.prems z by simp
    qed
    with True Cons.prems show ?thesis by (simp add: after_iff)
  next
    case False
    then have yx: "keyOrder fld ord y x" using keyOrder_total Cons.prems by simp
    have "sorted_wrt (keyOrder fld ord) (insertSorted (compareFn fld ord) x ys)"
      using Cons by simp
    with False yx Cons.prems show ?thesis
      by (simp add: after_iff set_insertSorted)
  qed
qed

lemma sorted_array_sort:
  "\<forall>x\<in>set xs. numericKey fld x \<Longrightarrow>
   sorted_wrt (keyOrder fld ord) (array_sort (compareFn fld ord) xs)"
proof (induction xs)
  case Nil
  then show ?case by (simp add: array_sort_def)
next
  case (Cons x xs)
  have "set (array_sort (compareFn fld ord) xs) = set xs"
    by (induction xs) (auto simp: array_sort_def set_insertSorted)
  with Cons show ?case
    using sorted_insertSorted [of fld x "array_sort (compareFn fld ord) xs" ord]
    by (simp add: array_sort_def)
qed

lemma filter_insertSorted_neg:
  "\<not> P x \<Longrightarrow> filter P (insertSorted c x ys) = filter P ys"
  by (induction ys) auto

lemma filter_insertSorted_pos:
  "P x \<Longrightarrow> \<forall>y\<in>set ys. P y \<longrightarrow> \<not> js_lt (Fin 0) (SortCompare c x y) \<Longrightarrow>
   filter P (insertSorted c x ys) = x # filter P ys"
  by (induction ys) auto

lemma stable_array_sort:
  "filter (\<lambda>x. sortKey fld x = k) (array_sort (compareFn fld ord) xs)
     = filter (\<lambda>x. sortKey fld x = k) xs"
proof (induction xs)
  case Nil
  then show ?case by (simp add: array_sort_def)
next
  case (Cons x xs)
  show ?case
  proof (cases "sortKey fld x = k")
    case True
    then show ?thesis
      using Cons filter_insertSorted_pos [of "\<lambda>x. sortKey fld x = k" x
          "array_sort (compareFn fld ord) xs" "compareFn fld ord"]
      by (simp add: array_sort_def SortCompare_same_key)
  next
    case False
    then show ?thesis
      using Cons by (simp add: array_sort_def filter_insertSorted_neg)
  qed
qed

lemma insertSorted_equal:
  "\<forall>y\<in>set ys. \<not> js_lt (Fin 0) (SortCompare c x y) \<Longrightarrow> insertSorted c x ys = x # ys"
  by (cases ys) auto

lemma array_sort_no_number:
  "\<forall>x\<in>set xs. sortKey fld x = None \<Longrightarrow> array_sort (compareFn fld ord) xs = xs"
proof (induction xs)
  case Nil
  then show ?case by (simp add: array_sort_def)
next
  case (Cons x xs)
  then have "array_sort (compareFn fld ord) xs = xs" by simp
  moreover have "\<forall>y\<in>set xs. \<not> js_lt (Fin 0) (SortCompare (compareFn fld ord) x y)"
    using Cons.prems by (simp add: SortCompare_same_key)
  ultimately show ?case
    by (simp add: array_sort_def insertSorted_equal)
qed

text \<open>
  A list with a number in some sort fields and none in others. The comparator calls
  \<open>rowFour\<close> and \<open>rowAbsent\<close> equal, and \<open>rowAbsent\<close> and \<open>rowThree\<close>, and puts \<open>rowFour\<close>
  after \<open>rowThree\<close>. No arrangement of the three rows has \<open>rowThree\<close> before \<open>rowFour\<close>
  and keeps both pairs that compare equal in their order, whatever the sort does.
\<close>

lemma mixed_rows_compare:
  "compareFn SortPercentile Asc rowFour rowAbsent = Fin 0"
  "compareFn SortPercentile Asc rowAbsent rowThree = Fin 0"
  "compareFn SortPercentile Asc rowFour rowThree = Fin 1"
  by (simp_all add: compareFn_def sortKey_def rowFour_def rowAbsent_def rowThree_def
      sampleRecord_def)

lemma mixed_rows_no_arrangement:
  assumes m: "mset ys = mset [rowFour, rowAbsent, rowThree]"
  shows "\<not> ((\<exists>i j. i < j \<and> j < length ys \<and> ys ! i = rowThree \<and> ys ! j = rowFour)
           \<and> (\<exists>i j. i < j \<and> j < length ys \<and> ys ! i = rowFour \<and> ys ! j = rowAbsent)
           \<and> (\<exists>i j. i < j \<and> j < length ys \<and> ys ! i = rowAbsent \<and> ys ! j = rowThree))"
proof
  assume a: "(\<exists>i j. i < j \<and> j < length ys \<and> ys ! i = rowThree \<and> ys ! j = rowFour)
           \<and> (\<exists>i j. i < j \<and> j < length ys \<and> ys ! i = rowFour \<and> ys ! j = rowAbsent)
           \<and> (\<exists>i j. i < j \<and> j < length ys \<and> ys ! i = rowAbsent \<and> ys ! j = rowThree)"
  have "distinct [rowFour, rowAbsent, rowThree]"
    by (simp add: rowFour_def rowAbsent_def rowThree_def sampleRecord_def)
  then have d: "distinct ys"
    using m by (metis mset_eq_imp_distinct_iff)
  obtain i1 j1 where 1: "i1 < j1" "j1 < length ys" "ys ! i1 = rowThree" "ys ! j1 = rowFour"
    using a by blast
  obtain i2 j2 where 2: "i2 < j2" "j2 < length ys" "ys ! i2 = rowFour" "ys ! j2 = rowAbsent"
    using a by blast
  obtain i3 j3 where 3: "i3 < j3" "j3 < length ys" "ys ! i3 = rowAbsent" "ys ! j3 = rowThree"
    using a by blast
  have e: "p = q" if "p < length ys" "q < length ys" "ys ! p = ys ! q" for p q
    using d that by (simp add: nth_eq_iff_index_eq)
  have "j1 = i2" using 1 2 by (intro e) simp_all
  moreover have "j2 = i3" using 2 3 by (intro e) simp_all
  moreover have "j3 = i1" using 3 1 by (intro e) simp_all
  ultimately show False using 1(1) 2(1) 3(1) by simp
qed

subsection \<open>The two filter stages\<close>

lemma thresholdCallback_iff:
  "thresholdCallback rf pf item \<longleftrightarrow>
     (pf \<noteq> [] \<and> js_le (ToNumber (Percentile item)) (parseFloat pf))
     \<or> (rf \<noteq> [] \<and> js_ge (ToNumber (Rank item)) (parseInt rf))"
  by (simp add: thresholdCallback_def)

lemma thresholdStage_filter:
  "thresholdStage rf pf d =
     filter (\<lambda>item. (rf = [] \<and> pf = []) \<or> thresholdCallback rf pf item) d"
  by (cases "rf = [] \<and> pf = []") (auto simp: thresholdStage_def intro: filter_cong)

lemma orEmpty_fieldText: "orEmpty v = fieldText v"
  by (simp add: orEmpty_def fieldText_def split: option.splits)

lemma searchCallback_iff:
  "searchCallback (trim (toLowerCase sf)) item \<longleftrightarrow>
     ciSubstring (trim sf) (fieldText (Institute_Name item))
     \<or> ciSubstring (trim sf) (fieldText (Course_Name item))"
  by (simp add: searchCallback_def ciSubstring_def orEmpty_fieldText toLowerCase_trim)

lemma searchStage_filter:
  "searchStage sf xs =
     filter (\<lambda>item. trim sf = [] \<or> searchCallback (trim (toLowerCase sf)) item) xs"
  by (cases "trim sf = []") (auto simp: searchStage_def intro: filter_cong)

lemma ciSubstring_iff:
  "ciSubstring sub s \<longleftrightarrow> (\<exists>p q. toLowerCase s = p @ toLowerCase sub @ q)"
  by (simp add: ciSubstring_def string_includes_iff)

lemma ciSubstring_empty_text: "sub \<noteq> [] \<Longrightarrow> \<not> ciSubstring sub []"
  by (simp add: ciSubstring_def toLowerCase_def)

lemma js_le_Fin [simp]: "js_le (Fin x) (Fin y) = (x \<le> y)"
  by (auto simp: js_le_def)

lemma js_ge_Fin [simp]: "js_ge (Fin x) (Fin y) = (y \<le> x)"
  by (auto simp: js_ge_def)

lemma js_le_NaN [simp]: "\<not> js_le a NaN" "\<not> js_le NaN b"
  by (simp_all add: js_le_def)

lemma js_ge_NaN [simp]: "\<not> js_ge a NaN" "\<not> js_ge NaN b"
  by (simp_all add: js_ge_def)

lemma parseInt_1000: "parseInt ''1000'' = Fin 1000"
  by code_simp

lemma parseFloat_90: "parseFloat ''90'' = Fin 90"
  by code_simp

lemma parseInt_10: "parseInt ''10'' = Fin 10"
  by code_simp

lemma parseInt_point5: "parseInt ''.5'' = NaN"
  by code_simp

lemma parseFloat_abc: "parseFloat ''abc'' = NaN"
  by code_simp

subsection \<open>Pagination\<close>

lemma paginatedData_take_drop:
  "1 \<le> p \<Longrightarrow> paginatedData xs p = take 20 (drop (nat ((p - 1) * 20)) xs)"
  by (auto simp: paginatedData_def slice_def itemsPerPage_def Let_def min_def)

lemma take_drop_swap: "take n (drop m xs) = drop m (take (m + n) xs)"
  by (simp add: drop_take)

lemma paginatedData_slice:
  assumes "1 \<le> p"
  shows "paginatedData xs p = drop (nat ((p - 1) * 20)) (take (nat (p * 20)) xs)"
proof -
  have "nat (p * 20) = nat ((p - 1) * 20) + 20" using assms by auto
  then show ?thesis
    using assms by (simp add: paginatedData_take_drop take_drop_swap)
qed

lemma totalPages_div: "totalPages xs = (int (length xs) + 19) div 20"
proof -
  have "real (length xs) / real_of_int 20 = real_of_int (int (length xs)) / real_of_int 20"
    by simp
  then have "\<lceil>real (length xs) / real_of_int 20\<rceil> = - ((- int (length xs)) div 20)"
    by (metis ceiling_divide_eq_div)
  then show ?thesis
    by (simp add: totalPages_def itemsPerPage_def)
qed

lemma paginatedData_beyond:
  "1 \<le> p \<Longrightarrow> int (length xs) \<le> (p - 1) * 20 \<Longrightarrow> paginatedData xs p = []"
  by (simp add: paginatedData_take_drop)

lemma length_paginatedData:
  "1 \<le> p \<Longrightarrow> length (paginatedData xs p) = min 20 (length xs - nat ((p - 1) * 20))"
  by (simp add: paginatedData_take_drop min.commute)

subsection \<open>The store\<close>

lemma map_insertSorted:
  "map f (insertSorted (\<lambda>a b. c (f a) (f b)) x ys) = insertSorted c (f x) (map f ys)"
  by (induction ys) (auto simp: SortCompare_def)

lemma map_array_sort:
  "map f (array_sort (\<lambda>a b. c (f a) (f b)) xs) = array_sort c (map f xs)"
  by (induction xs) (auto simp: array_sort_def map_insertSorted)

lemma map_slice: "map f (slice xs a b) = slice (map f xs) a b"
  by (simp add: slice_def Let_def take_map drop_map)

lemma filter_map_deref:
  "map f (filter (\<lambda>r. P (f r)) rs) = filter P (map f rs)"
  by (induction rs) auto

lemma extends_refl: "extends h h"
  by (simp add: extends_def)

lemma extends_trans: "extends h1 h2 \<Longrightarrow> extends h2 h3 \<Longrightarrow> extends h1 h3"
proof -
  assume a: "extends h1 h2" "extends h2 h3"
  then have "take (length (arrays h1)) (take (length (arrays h2)) (arrays h3)) = arrays h1"
    by (simp add: extends_def)
  moreover have "min (length (arrays h1)) (length (arrays h2)) = length (arrays h1)"
    using a by (simp add: extends_def)
  ultimately have "take (length (arrays h1)) (arrays h3) = arrays h1"
    by simp
  with a show ?thesis by (simp add: extends_def)
qed

lemma extends_writeArray:
  "extends h0 h \<Longrightarrow> length (arrays h0) \<le> a \<Longrightarrow> extends h0 (writeArray h a xs)"
  by (simp add: extends_def writeArray_def)

lemma extends_readArray: "extends h h' \<Longrightarrow> a < length (arrays h) \<Longrightarrow> readArray h' a = readArray h a"
proof -
  assume a: "extends h h'" "a < length (arrays h)"
  then have "take (length (arrays h)) (arrays h') ! a = arrays h' ! a" by simp
  with a show ?thesis by (simp add: extends_def readArray_def)
qed

lemma extends_deref: "extends h h' \<Longrightarrow> deref h' = deref h"
  by (auto simp: extends_def deref_def)

lemma extends_contents: "extends h h' \<Longrightarrow> a < length (arrays h) \<Longrightarrow> contents h' a = contents h a"
  by (simp add: contents_def extends_readArray extends_deref)

lemma newArray_props:
  assumes "newArray h xs = (a, h')"
  shows "a = length (arrays h)" "length (arrays h') = Suc (length (arrays h))"
    "readArray h' a = xs" "extends h h'"
  using assms by (auto simp: newArray_def readArray_def extends_def)

lemma filteredAndSortedData_heap_correct:
  assumes d: "dataRef < length (arrays h0)"
    and r: "filteredAndSortedData_heap h0 dataRef rf pf sf fld ord = (filtered, h')"
  shows "extends h0 h'" and "length (arrays h0) \<le> filtered" and "filtered < length (arrays h')"
    and "contents h' filtered = filteredAndSortedData (contents h0 dataRef) rf pf sf fld ord"
proof -
  obtain f1 h1 where s1: "newArray h0 (readArray h0 dataRef) = (f1, h1)"
    by (cases "newArray h0 (readArray h0 dataRef)")
  note p1 = newArray_props [OF s1]
  have c1: "map (deref h0) (readArray h1 f1) = contents h0 dataRef"
    using p1 by (simp add: contents_def)
  obtain f2 h2 where s2:
    "(if rf \<noteq> [] \<or> pf \<noteq> []
      then newArray h1 (filter (\<lambda>item. thresholdCallback rf pf (deref h1 item)) (readArray h1 dataRef))
      else (f1, h1)) = (f2, h2)"
    by (cases "(if rf \<noteq> [] \<or> pf \<noteq> []
      then newArray h1 (filter (\<lambda>item. thresholdCallback rf pf (deref h1 item)) (readArray h1 dataRef))
      else (f1, h1))")
  have e2: "extends h0 h2" and l2: "length (arrays h0) \<le> f2" and b2: "f2 < length (arrays h2)"
    and c2: "map (deref h0) (readArray h2 f2) = thresholdStage rf pf (contents h0 dataRef)"
  proof -
    show "extends h0 h2" using s2 p1 newArray_props(4) extends_trans
      by (auto split: if_splits)
    show "length (arrays h0) \<le> f2" using s2 p1
      by (auto simp: extends_def dest!: newArray_props(1) split: if_splits)
    show "f2 < length (arrays h2)" using s2 p1
      by (auto simp: newArray_def split: if_splits)
    show "map (deref h0) (readArray h2 f2) = thresholdStage rf pf (contents h0 dataRef)"
    proof (cases "rf \<noteq> [] \<or> pf \<noteq> []")
      case True
      then have n: "newArray h1
          (filter (\<lambda>item. thresholdCallback rf pf (deref h1 item)) (readArray h1 dataRef)) = (f2, h2)"
        using s2 by simp
      have "readArray h1 dataRef = readArray h0 dataRef"
        using p1 d by (simp add: extends_readArray)
      moreover have "deref h1 = deref h0" using p1 by (simp add: extends_deref)
      ultimately show ?thesis
        using True newArray_props(3) [OF n]
        by (simp add: thresholdStage_def contents_def filter_map_deref)
    next
      case False
      then show ?thesis using s2 c1 by (simp add: thresholdStage_def)
    qed
  qed
  obtain f3 h3 where s3:
    "(if trim sf \<noteq> []
      then (let searchLower = trim (toLowerCase sf)
            in newArray h2 (filter (\<lambda>item. searchCallback searchLower (deref h2 item)) (readArray h2 f2)))
      else (f2, h2)) = (f3, h3)"
    by (cases "(if trim sf \<noteq> []
      then (let searchLower = trim (toLowerCase sf)
            in newArray h2 (filter (\<lambda>item. searchCallback searchLower (deref h2 item)) (readArray h2 f2)))
      else (f2, h2))")
  have e3: "extends h0 h3" and l3: "length (arrays h0) \<le> f3" and b3: "f3 < length (arrays h3)"
    and c3: "map (deref h0) (readArray h3 f3)
               = searchStage sf (thresholdStage rf pf (contents h0 dataRef))"
  proof -
    show "extends h0 h3" using s3 e2 newArray_props(4) extends_trans
      by (auto simp: Let_def split: if_splits)
    show "length (arrays h0) \<le> f3" using s3 l2 e2
      by (auto simp: Let_def extends_def dest!: newArray_props(1) split: if_splits)
    show "f3 < length (arrays h3)" using s3 b2
      by (auto simp: Let_def newArray_def split: if_splits)
    show "map (deref h0) (readArray h3 f3)
               = searchStage sf (thresholdStage rf pf (contents h0 dataRef))"
    proof (cases "trim sf \<noteq> []")
      case True
      then have n: "newArray h2
          (filter (\<lambda>item. searchCallback (trim (toLowerCase sf)) (deref h2 item)) (readArray h2 f2))
          = (f3, h3)"
        using s3 by (simp add: Let_def)
      have "deref h2 = deref h0" using e2 by (simp add: extends_deref)
      then show ?thesis
        using True newArray_props(3) [OF n] c2
        by (simp add: searchStage_def Let_def filter_map_deref)
    next
      case False
      then show ?thesis using s3 c2 by (simp add: searchStage_def)
    qed
  qed
  have h': "h' = writeArray h3 f3
                (array_sort (\<lambda>a b. compareFn fld ord (deref h3 a) (deref h3 b)) (readArray h3 f3))"
    and f: "filtered = f3"
    using r s1 s2 s3 by (auto simp: filteredAndSortedData_heap_def Let_def)
  show "extends h0 h'" using h' e3 l3 by (simp add: extends_writeArray)
  show "length (arrays h0) \<le> filtered" using f l3 by simp
  show "filtered < length (arrays h')" using f b3 h' by (simp add: writeArray_def)
  have "deref h' = deref h0" "deref h3 = deref h0"
    using \<open>extends h0 h'\<close> e3 by (simp_all add: extends_deref)
  moreover have "readArray h' filtered
      = array_sort (\<lambda>a b. compareFn fld ord (deref h3 a) (deref h3 b)) (readArray h3 f3)"
    using h' f b3 by (simp add: writeArray_def readArray_def)
  ultimately show "contents h' filtered = filteredAndSortedData (contents h0 dataRef) rf pf sf fld ord"
    using c3 by (simp add: contents_def filteredAndSortedData_def sortStage_def map_array_sort)
qed

lemma paginatedData_heap_correct:
  assumes "paginatedData_heap h filtered p = (visible, h')"
  shows "extends h h'" and "visible = length (arrays h)"
    and "contents h' visible = paginatedData (contents h filtered) p"
proof -
  have n: "newArray h (slice (readArray h filtered) ((p - 1) * itemsPerPage)
              ((p - 1) * itemsPerPage + itemsPerPage)) = (visible, h')"
    using assms by (simp add: paginatedData_heap_def Let_def)
  show "extends h h'" "visible = length (arrays h)"
    using newArray_props [OF n] by simp_all
  then have "deref h' = deref h" by (simp add: extends_deref)
  then show "contents h' visible = paginatedData (contents h filtered) p"
    using newArray_props(3) [OF n]
    by (simp add: contents_def paginatedData_def Let_def map_slice)
qed

lemma renderOnce_heap_extends:
  assumes "dataRef < length (arrays h)"
  shows "extends h (renderOnce_heap h dataRef inputs)"
proof -
  obtain rf pf sf fld ord page where i: "inputs = (rf, pf, sf, fld, ord, page)"
    by (cases inputs) auto
  obtain filtered h1 where f: "filteredAndSortedData_heap h dataRef rf pf sf fld ord = (filtered, h1)"
    by (cases "filteredAndSortedData_heap h dataRef rf pf sf fld ord")
  obtain visible h2 where v: "paginatedData_heap h1 filtered page = (visible, h2)"
    by (cases "paginatedData_heap h1 filtered page")
  have "extends h h1" using filteredAndSortedData_heap_correct(1) [OF assms f] .
  moreover have "extends h1 h2" using paginatedData_heap_correct(1) [OF v] .
  ultimately have "extends h h2" by (rule extends_trans)
  then show ?thesis using i f v by (simp add: renderOnce_heap_def)
qed

lemma session_heap_extends:
  "dataRef < length (arrays h) \<Longrightarrow> extends h (session_heap h dataRef inputs)"
proof (induction inputs arbitrary: h)
  case Nil
  then show ?case by (simp add: session_heap_def extends_refl)
next
  case (Cons i inputs)
  have e: "extends h (renderOnce_heap h dataRef i)"
    using Cons.prems by (rule renderOnce_heap_extends)
  then have "dataRef < length (arrays (renderOnce_heap h dataRef i))"
    using Cons.prems by (simp add: extends_def)
  then have "extends (renderOnce_heap h dataRef i)
               (session_heap (renderOnce_heap h dataRef i) dataRef inputs)"
    by (rule Cons.IH)
  with e have "extends h (session_heap (renderOnce_heap h dataRef i) dataRef inputs)"
    by (rule extends_trans)
  then show ?case by (simp add: session_heap_def)
qed

subsection \<open>Rendering\<close>

lemma hooks_ok_noHooks: "hooks_ok noHooks"
  by (simp add: hooks_ok_def noHooks_def)

lemma render_hooks_ok:
  assumes "hooks_ok hk"
  shows "hooks_ok (snd (render st hk))"
    and "fst (render st hk)
           = queryPipeline (data st) (rankFilter st) (percentileFilter st) (searchFilter st)
               (sortField st) (sortOrder st) (currentPage st)"
  using assms
  by (auto simp: hooks_ok_def render_def useMemo_def queryPipeline_def filteredOf_def Let_def
      split: option.splits prod.splits if_splits)

lemma hooks_ok_foldl:
  "hooks_ok hk \<Longrightarrow> hooks_ok (foldl (\<lambda>hk st. snd (render st hk)) hk sts)"
  by (induction sts arbitrary: hk) (simp_all add: render_hooks_ok(1))

lemma hooks_ok_hooksAfter: "hooks_ok (hooksAfter sts)"
  by (simp add: hooksAfter_def hooks_ok_foldl hooks_ok_noHooks)

subsection \<open>The handlers\<close>

lemma handleSort_page: "currentPage (handleSort field st) = 1"
  by (simp add: handleSort_def Let_def)

lemma clearFilters_page: "currentPage (clearFilters st) = 1"
  by (simp add: clearFilters_def)

lemma step_ClickSort_page: "tableShown st \<Longrightarrow> currentPage (step (ClickSort field) st) = 1"
  by (simp add: step_def handleSort_page)

lemma step_ClickClear_page:
  "tableShown st \<Longrightarrow> hasActiveFilters st \<Longrightarrow> currentPage (step ClickClear st) = 1"
  by (simp add: step_def clearFilters_page)

lemma step_Change_page:
  "currentPage (step (ChangeRank v) st) = currentPage st"
  "currentPage (step (ChangePercentile v) st) = currentPage st"
  "currentPage (step (ChangeSearch v) st) = currentPage st"
  by (simp_all add: step_def)

lemma filteredOf_no_filters:
  "rankFilter st = [] \<Longrightarrow> percentileFilter st = [] \<Longrightarrow> searchFilter st = [] \<Longrightarrow>
   length (filteredOf st) = length (data st)"
  by (simp add: filteredOf_def filteredAndSortedData_def thresholdStage_def searchStage_def
      sortStage_def length_array_sort trim_def)

lemma length_dataset41: "length dataset41 = 41"
  by (simp add: dataset41_def)

lemma dataset41_search_alpha:
  "filteredAndSortedData dataset41 [] [] ''alpha'' SortRank Asc = [sampleRecord 1 99 ''Alpha'' ''X'']"
proof -
  have t: "trim ''alpha'' = ''alpha''" "trim (toLowerCase ''alpha'') = ''alpha''"
    by code_simp+
  have c: "searchCallback ''alpha'' (sampleRecord 1 99 ''Alpha'' ''X'')"
    "\<not> searchCallback ''alpha'' (sampleRecord 2 98 ''Beta'' ''Y'')"
    by code_simp+
  show ?thesis
    by (simp add: filteredAndSortedData_def thresholdStage_def searchStage_def t c dataset41_def
        sortStage_def array_sort_def)
qed

subsection \<open>Loading\<close>

lemma proxyAttempt_array: "proxyAttempt fetch parse proxy = Loaded j \<Longrightarrow> isArray j"
  by (auto simp: proxyAttempt_def split: completion.splits if_splits)

lemma tryProxies_array: "tryProxies fetch parse proxies = Loaded j \<Longrightarrow> isArray j"
  by (induction proxies) (auto split: attempt.splits dest: proxyAttempt_array)

lemma fetchData_all_failed:
  assumes "serverAttempt fetch = NextCandidate"
    and "tryProxies fetch parse corsProxies = NextCandidate"
    and "directAttempt fetch = NextCandidate"
  shows "fetchData fetch parse st
           = st\<lparr>error := Some ''All data sources failed. Please try again later.'',
                loading := False\<rparr>"
  using assms by (simp add: fetchData_def)

lemma fetchData_error_keeps_data:
  "error (fetchData fetch parse st) \<noteq> error st \<Longrightarrow> data (fetchData fetch parse st) = data st"
  by (auto simp: fetchData_def Let_def split: attempt.splits)

lemma fetchData_loading: "\<not> loading (fetchData fetch parse st)"
  by (auto simp: fetchData_def Let_def split: attempt.splits)

lemma fetchData_server_first:
  "serverAttempt fetch = Loaded j \<Longrightarrow> data (fetchData fetch parse st) = j"
  by (simp add: fetchData_def)

section \<open>The claims\<close>

text \<open>
  C1. When a rank filter or a percentile filter is set, the threshold stage keeps exactly
  the records that satisfy at least one of the set thresholds: percentile at most the
  percentile threshold, or rank at least the rank threshold. With neither set, every
  record passes. With the thresholds 90 and 1000, the record of rank 500 and percentile 95
  is dropped and the record of rank 5000 and percentile 95 is kept.
\<close>

theorem threshold_or_semantics:
  "(rf \<noteq> [] \<or> pf \<noteq> [] \<longrightarrow>
      thresholdStage rf pf d =
        filter (\<lambda>item. (pf \<noteq> [] \<and> js_le (ToNumber (Percentile item)) (parseFloat pf))
                      \<or> (rf \<noteq> [] \<and> js_ge (ToNumber (Rank item)) (parseInt rf))) d)
   \<and> (rf = [] \<and> pf = [] \<longrightarrow> thresholdStage rf pf d = d)
   \<and> thresholdStage ''1000'' ''90'' [sampleRecord 500 95 i c, sampleRecord 5000 95 i c]
       = [sampleRecord 5000 95 i c]"
proof (intro conjI impI)
  assume "rf \<noteq> [] \<or> pf \<noteq> []"
  then show "thresholdStage rf pf d =
        filter (\<lambda>item. (pf \<noteq> [] \<and> js_le (ToNumber (Percentile item)) (parseFloat pf))
                      \<or> (rf \<noteq> [] \<and> js_ge (ToNumber (Rank item)) (parseInt rf))) d"
    by (auto simp: thresholdStage_def thresholdCallback_iff intro!: filter_cong)
next
  assume "rf = [] \<and> pf = []"
  then show "thresholdStage rf pf d = d"
    by (simp add: thresholdStage_def)
next
  show "thresholdStage ''1000'' ''90'' [sampleRecord 500 95 i c, sampleRecord 5000 95 i c]
       = [sampleRecord 5000 95 i c]"
    by (simp add: thresholdStage_def thresholdCallback_iff parseInt_1000 parseFloat_90
        sampleRecord_def ToNumber_def)
qed

theorem threshold_or_semantics_witness:
  "thresholdStage ''10'' []
     [sampleRecord 1 99.9 ''A'' ''X'', sampleRecord 2 99.5 ''B'' ''Y'', sampleRecord 50000 10 ''C'' ''Z'']
   = [sampleRecord 50000 10 ''C'' ''Z'']
   \<and> thresholdStage [] ''90'' [sampleRecord 500 95 ''A'' ''X'', sampleRecord 5000 90 ''B'' ''Y'']
       = [sampleRecord 5000 90 ''B'' ''Y'']
   \<and> thresholdStage [] [] [sampleRecord 500 95 ''A'' ''X''] = [sampleRecord 500 95 ''A'' ''X'']"
  using threshold_or_semantics [where rf = "''10''" and pf = "[]" and d =
      "[sampleRecord 1 99.9 ''A'' ''X'', sampleRecord 2 99.5 ''B'' ''Y'',
        sampleRecord 50000 10 ''C'' ''Z'']"]
    threshold_or_semantics [where rf = "[]" and pf = "''90''" and d =
      "[sampleRecord 500 95 ''A'' ''X'', sampleRecord 5000 90 ''B'' ''Y'']"]
    threshold_or_semantics [where rf = "[]" and pf = "[]" and d = "[sampleRecord 500 95 ''A'' ''X'']"]
  by (simp add: parseInt_10 parseFloat_90 sampleRecord_def ToNumber_def)

text \<open>
  C2. The number of matches is the number of records of the dataset that pass the
  threshold stage and pass the search stage: the two stages are applied one after the
  other, and the sort changes no count.
\<close>

theorem totalMatches_both_stages:
  "fst (snd (queryPipeline d rf pf sf fld ord page))
     = length (filter (\<lambda>item. ((rf = [] \<and> pf = [])
                                \<or> (pf \<noteq> [] \<and> js_le (ToNumber (Percentile item)) (parseFloat pf))
                                \<or> (rf \<noteq> [] \<and> js_ge (ToNumber (Rank item)) (parseInt rf)))
                             \<and> (trim sf = []
                                \<or> ciSubstring (trim sf) (fieldText (Institute_Name item))
                                \<or> ciSubstring (trim sf) (fieldText (Course_Name item)))) d)"
proof -
  have "length (filteredAndSortedData d rf pf sf fld ord)
          = length (searchStage sf (thresholdStage rf pf d))"
    by (simp add: filteredAndSortedData_def sortStage_def length_array_sort)
  also have "searchStage sf (thresholdStage rf pf d)
          = filter (\<lambda>item. ((rf = [] \<and> pf = []) \<or> thresholdCallback rf pf item)
                          \<and> (trim sf = [] \<or> searchCallback (trim (toLowerCase sf)) item)) d"
    by (simp add: searchStage_filter thresholdStage_filter conj_commute)
  finally show ?thesis
    by (simp add: queryPipeline_def Let_def thresholdCallback_iff searchCallback_iff)
qed

theorem totalMatches_both_stages_witness:
  "fst (snd (queryPipeline
       [sampleRecord 1 99.9 ''Alpha'' ''X'', sampleRecord 20 99.5 ''Beta'' ''Y'',
        sampleRecord 50000 10 ''alphabet'' ''Z'']
       ''10'' [] ''ALPHA '' SortRank Asc 1)) = 1"
proof -
  have t: "trim ''ALPHA '' = ''ALPHA''"
    by (simp add: trim_def isWhiteSpace_def)
  have c: "\<not> ciSubstring ''ALPHA'' ''X''" "\<not> ciSubstring ''ALPHA'' ''Beta''"
    "\<not> ciSubstring ''ALPHA'' ''Y''" "ciSubstring ''ALPHA'' ''alphabet''"
    by code_simp+
  show ?thesis
    using totalMatches_both_stages [of
        "[sampleRecord 1 99.9 ''Alpha'' ''X'', sampleRecord 20 99.5 ''Beta'' ''Y'',
          sampleRecord 50000 10 ''alphabet'' ''Z'']"
        "''10''" "[]" "''ALPHA ''" SortRank Asc 1]
    by (simp add: t c parseInt_10 sampleRecord_def ToNumber_def fieldText_def)
qed

text \<open>
  C3. For a page number \<open>p\<close> of at least 1, the visible rows are the rows of the filtered
  list from index \<open>(p - 1) * 20\<close> up to, not including, index \<open>p * 20\<close>. The number of pages
  is the number of matches divided by 20 and rounded up, and 0 when nothing matches. The
  page number is not clamped: a page beyond the last one is empty. With 41 matches there
  are 3 pages, page 3 has one row and page 4 has none.
\<close>

theorem pagination_slice_and_pages:
  "(1 \<le> p \<longrightarrow> paginatedData xs p = drop (nat ((p - 1) * 20)) (take (nat (p * 20)) xs))
   \<and> totalPages xs = \<lceil>real (length xs) / 20\<rceil>
   \<and> (xs = [] \<longrightarrow> totalPages xs = 0)
   \<and> 0 \<le> totalPages xs
   \<and> (1 \<le> p \<and> totalPages xs < p \<longrightarrow> paginatedData xs p = [])
   \<and> (length xs = 41 \<longrightarrow>
        totalPages xs = 3 \<and> length (paginatedData xs 3) = 1 \<and> paginatedData xs 4 = [])
   \<and> queryPipeline d rf pf sf fld ord p
       = (paginatedData (filteredAndSortedData d rf pf sf fld ord) p,
          length (filteredAndSortedData d rf pf sf fld ord),
          totalPages (filteredAndSortedData d rf pf sf fld ord))"
proof (intro conjI impI)
  assume "1 \<le> p"
  then show "paginatedData xs p = drop (nat ((p - 1) * 20)) (take (nat (p * 20)) xs)"
    by (rule paginatedData_slice)
next
  show "totalPages xs = \<lceil>real (length xs) / 20\<rceil>"
    by (simp add: totalPages_def itemsPerPage_def)
next
  assume "xs = []"
  then show "totalPages xs = 0" by (simp add: totalPages_div)
next
  show "0 \<le> totalPages xs" by (simp add: totalPages_div)
next
  assume a: "1 \<le> p \<and> totalPages xs < p"
  then have "(int (length xs) + 19) div 20 < p" by (simp add: totalPages_div)
  then have "int (length xs) \<le> (p - 1) * 20" by presburger
  with a show "paginatedData xs p = []" by (simp add: paginatedData_beyond)
next
  assume "length xs = 41"
  then show "totalPages xs = 3" by (simp add: totalPages_div)
next
  assume "length xs = 41"
  then show "length (paginatedData xs 3) = 1" by (simp add: length_paginatedData)
next
  assume "length xs = 41"
  then show "paginatedData xs 4 = []" by (simp add: paginatedData_beyond)
next
  show "queryPipeline d rf pf sf fld ord p
       = (paginatedData (filteredAndSortedData d rf pf sf fld ord) p,
          length (filteredAndSortedData d rf pf sf fld ord),
          totalPages (filteredAndSortedData d rf pf sf fld ord))"
    by (simp add: queryPipeline_def Let_def)
qed

theorem pagination_slice_and_pages_witness:
  "paginatedData (map int [0 ..< 41]) 3 = [40] \<and> paginatedData (map int [0 ..< 41]) 4 = []
   \<and> totalPages (map int [0 ..< 41]) = 3
   \<and> paginatedData (map int [0 ..< 41]) 2 = map int [20 ..< 40]
   \<and> paginatedData (map int [0 ..< 41]) 7 = []
   \<and> totalPages ([] :: int list) = 0"
proof -
  have l: "length (map int [0 ..< 41]) = 41" by simp
  have e: "drop 40 (take 60 (map int [0 ..< 41])) = [40]"
    "drop 20 (take 40 (map int [0 ..< 41])) = map int [20 ..< 40]"
    by code_simp+
  show ?thesis
    using pagination_slice_and_pages [where p = 3 and xs = "map int [0 ..< 41]"]
      pagination_slice_and_pages [where p = 2 and xs = "map int [0 ..< 41]"]
      pagination_slice_and_pages [where p = 7 and xs = "map int [0 ..< 41]"]
      pagination_slice_and_pages [where p = 1 and xs = "[] :: int list"]
      l e
    by simp
qed

text \<open>
  C4. Editing a filter field does not bring the page number back to 1. With 41 records
  loaded, two clicks on "Next" lead to page 3; typing a search text that one record
  matches then leaves the page number at 3, where the page shows no row of the one match
  and, with a single page, no pagination control.
\<close>

theorem filter_edit_keeps_page:
  "currentPage (runEvents (loadedState dataset41) [ClickNext, ClickNext, ChangeSearch ''alpha'']) = 3
   \<and> render (runEvents (loadedState dataset41) [ClickNext, ClickNext, ChangeSearch ''alpha''])
         noHooks
       = (([], 1, 1),
          \<lparr>memoFiltered = Some ((dataset41, [], [], ''alpha'', SortRank, Asc),
                                  [sampleRecord 1 99 ''Alpha'' ''X'']),
           memoPaginated = Some (([sampleRecord 1 99 ''Alpha'' ''X''], 3), [])\<rparr>)
   \<and> currentPage (runEvents (loadedState dataset41) [ClickNext, ClickNext, ClickSort SortRank]) = 1"
proof -
  define s0 where "s0 = loadedState dataset41"
  define s1 where "s1 = s0\<lparr>currentPage := 2\<rparr>"
  define s2 where "s2 = s0\<lparr>currentPage := 3\<rparr>"
  have sh: "tableShown s0" "tableShown s1" "tableShown s2"
    by (simp_all add: s0_def s1_def s2_def tableShown_def loadedState_def initialState_def)
  have l: "length (filteredOf s0) = 41" "length (filteredOf s1) = 41"
    by (simp_all add: s0_def s1_def filteredOf_no_filters loadedState_def initialState_def
        length_dataset41)
  have p: "totalPages (filteredOf s0) = 3" "totalPages (filteredOf s1) = 3"
    by (simp_all add: totalPages_div l)
  have c: "currentPage s0 = 1" "currentPage s1 = 2"
    by (simp_all add: s0_def s1_def loadedState_def initialState_def)
  have "step ClickNext s0 = s0\<lparr>currentPage := 2\<rparr>"
    by (simp add: step_def sh p c)
  then have n1: "step ClickNext s0 = s1"
    by (simp add: s1_def)
  have "step ClickNext s1 = s1\<lparr>currentPage := 3\<rparr>"
    by (simp add: step_def sh p c)
  then have n2: "step ClickNext s1 = s2"
    by (simp add: s1_def s2_def)
  have n3: "step (ChangeSearch ''alpha'') s2 = s2\<lparr>searchFilter := ''alpha''\<rparr>"
    by (simp add: step_def sh)
  have n4: "step (ClickSort SortRank) s2 = handleSort SortRank s2"
    by (simp add: step_def sh)
  have r1: "runEvents s0 [ClickNext, ClickNext, ChangeSearch ''alpha''] = s2\<lparr>searchFilter := ''alpha''\<rparr>"
    by (simp add: runEvents_def n1 n2 n3)
  have r2: "runEvents s0 [ClickNext, ClickNext, ClickSort SortRank] = handleSort SortRank s2"
    by (simp add: runEvents_def n1 n2 n4)
  have f: "filteredOf (s2\<lparr>searchFilter := ''alpha''\<rparr>) = [sampleRecord 1 99 ''Alpha'' ''X'']"
    by (simp add: filteredOf_def s2_def s0_def loadedState_def initialState_def
        dataset41_search_alpha)
  have v: "paginatedData [sampleRecord 1 99 ''Alpha'' ''X''] 3 = []"
    by (simp add: paginatedData_beyond)
  have d: "data (s2\<lparr>searchFilter := ''alpha''\<rparr>) = dataset41"
    "rankFilter (s2\<lparr>searchFilter := ''alpha''\<rparr>) = []"
    "percentileFilter (s2\<lparr>searchFilter := ''alpha''\<rparr>) = []"
    "sortField (s2\<lparr>searchFilter := ''alpha''\<rparr>) = SortRank"
    "sortOrder (s2\<lparr>searchFilter := ''alpha''\<rparr>) = Asc"
    by (simp_all add: s2_def s0_def loadedState_def initialState_def)
  have "render (s2\<lparr>searchFilter := ''alpha''\<rparr>) noHooks
       = (([], 1, 1),
          \<lparr>memoFiltered = Some ((dataset41, [], [], ''alpha'', SortRank, Asc),
                                  [sampleRecord 1 99 ''Alpha'' ''X'']),
           memoPaginated = Some (([sampleRecord 1 99 ''Alpha'' ''X''], 3), [])\<rparr>)"
    using f v d
    by (simp add: render_def useMemo_def noHooks_def totalPages_div s2_def)
  then show ?thesis
    using r1 r2 by (simp add: s0_def s2_def handleSort_page)
qed

text \<open>
  C5. The local endpoint is the first candidate, and its value is stored whatever it is:
  when it answers with a JSON object, the object becomes the dataset, no other candidate
  is asked, and no error is reported. The same holds for the direct download, the last
  candidate. Only a value that comes through a proxy is stored on the condition that it
  is an array.
\<close>

theorem server_payload_not_checked:
  "data (fetchData objectServer parse (initialState (JArray [])))
     = JObject [(''error'', JString ''unavailable'')]
   \<and> \<not> isArray (data (fetchData objectServer parse (initialState (JArray []))))
   \<and> error (fetchData objectServer parse (initialState (JArray []))) = None
   \<and> \<not> loading (fetchData objectServer parse (initialState (JArray [])))
   \<and> proxyAttempt
        (\<lambda>url. Normal \<lparr>ok = True, json = Normal (JObject [(''error'', JString ''unavailable'')])\<rparr>)
        (\<lambda>v. Throw) ''https://corsproxy.io/?'' = NextCandidate
   \<and> directAttempt
        (\<lambda>url. Normal \<lparr>ok = True, json = Normal (JObject [(''error'', JString ''unavailable'')])\<rparr>)
       = Loaded (JObject [(''error'', JString ''unavailable'')])"
proof -
  have s: "serverAttempt objectServer = Loaded (JObject [(''error'', JString ''unavailable'')])"
    by (simp add: serverAttempt_def objectServer_def)
  have i: "\<not> string_includes ''https://corsproxy.io/?'' ''allorigins''"
    by code_simp
  have p: "proxyAttempt
        (\<lambda>url. Normal \<lparr>ok = True, json = Normal (JObject [(''error'', JString ''unavailable'')])\<rparr>)
        (\<lambda>v. Throw) ''https://corsproxy.io/?'' = NextCandidate"
    using i by (simp add: proxyAttempt_def isArray_def)
  show ?thesis
    using s p by (simp add: fetchData_def initialState_def isArray_def directAttempt_def)
qed

text \<open>
  C6. The search stage changes nothing when the search text, trimmed, is empty. Otherwise
  it keeps exactly the records where the trimmed search text occurs, the case of letters
  ignored, in the institute name or in the course name, a missing name counting as the
  empty string; so a record without an institute name is kept exactly when its course
  name matches.
\<close>

theorem search_stage_semantics:
  "(trim sf = [] \<longrightarrow> searchStage sf xs = xs)
   \<and> (trim sf \<noteq> [] \<longrightarrow>
        searchStage sf xs =
          filter (\<lambda>item. ciSubstring (trim sf) (fieldText (Institute_Name item))
                        \<or> ciSubstring (trim sf) (fieldText (Course_Name item))) xs)
   \<and> (trim sf \<noteq> [] \<and> Institute_Name item = None \<longrightarrow>
        (item \<in> set (searchStage sf xs) \<longleftrightarrow>
           item \<in> set xs \<and> ciSubstring (trim sf) (fieldText (Course_Name item))))
   \<and> (ciSubstring sub s \<longleftrightarrow> (\<exists>p q. toLowerCase s = p @ toLowerCase sub @ q))"
proof -
  have a: "trim sf = [] \<longrightarrow> searchStage sf xs = xs"
    by (simp add: searchStage_def)
  have b: "trim sf \<noteq> [] \<longrightarrow>
        searchStage sf xs =
          filter (\<lambda>item. ciSubstring (trim sf) (fieldText (Institute_Name item))
                        \<or> ciSubstring (trim sf) (fieldText (Course_Name item))) xs"
    by (auto simp: searchStage_filter searchCallback_iff intro!: filter_cong)
  have c: "trim sf \<noteq> [] \<and> Institute_Name item = None \<longrightarrow>
        (item \<in> set (searchStage sf xs) \<longleftrightarrow>
           item \<in> set xs \<and> ciSubstring (trim sf) (fieldText (Course_Name item)))"
    using b by (auto simp: fieldText_def ciSubstring_empty_text)
  show ?thesis
    using a b c ciSubstring_iff [of sub s] by blast
qed

theorem search_stage_semantics_witness:
  "searchStage '' Tech ''
     [sampleRecord 1 99 ''Institute of TECHNOLOGY'' ''Civil'',
      (sampleRecord 2 98 [] ''Biotechnology'')\<lparr>Institute_Name := None\<rparr>,
      (sampleRecord 3 97 [] ''Civil'')\<lparr>Institute_Name := None\<rparr>]
   = [sampleRecord 1 99 ''Institute of TECHNOLOGY'' ''Civil'',
      (sampleRecord 2 98 [] ''Biotechnology'')\<lparr>Institute_Name := None\<rparr>]
   \<and> (sampleRecord 3 97 [] ''Civil'')\<lparr>Institute_Name := None\<rparr>
       \<notin> set (searchStage '' Tech ''
                [sampleRecord 1 99 ''Institute of TECHNOLOGY'' ''Civil'',
                 (sampleRecord 2 98 [] ''Biotechnology'')\<lparr>Institute_Name := None\<rparr>,
                 (sampleRecord 3 97 [] ''Civil'')\<lparr>Institute_Name := None\<rparr>])
   \<and> searchStage ''  '' [sampleRecord 1 99 ''A'' ''Civil''] = [sampleRecord 1 99 ''A'' ''Civil'']"
proof -
  have t: "trim '' Tech '' = ''Tech''" "trim ''  '' = []"
    by (simp_all add: trim_def isWhiteSpace_def)
  have c: "ciSubstring ''Tech'' ''Institute of TECHNOLOGY''" "\<not> ciSubstring ''Tech'' []"
    "ciSubstring ''Tech'' ''Biotechnology''" "\<not> ciSubstring ''Tech'' ''Civil''"
    by code_simp+
  show ?thesis
    using search_stage_semantics [where sf = "'' Tech ''" and xs =
        "[sampleRecord 1 99 ''Institute of TECHNOLOGY'' ''Civil'',
          (sampleRecord 2 98 [] ''Biotechnology'')\<lparr>Institute_Name := None\<rparr>,
          (sampleRecord 3 97 [] ''Civil'')\<lparr>Institute_Name := None\<rparr>]"
        and item = "(sampleRecord 3 97 [] ''Civil'')\<lparr>Institute_Name := None\<rparr>"
        and sub = "''Tech''" and s = "''Civil''"]
      search_stage_semantics [where sf = "''  ''" and xs = "[sampleRecord 1 99 ''A'' ''Civil'']"
        and item = "sampleRecord 1 99 ''A'' ''Civil''" and sub = "''Tech''" and s = "''Civil''"]
    by (simp add: t c sampleRecord_def fieldText_def)
qed

text \<open>
  C7, as amended. On a list in which every record holds a number in the sort field, the
  sort stage returns a rearrangement of its input that is ordered by that field, smaller
  values first when ascending and larger values first when descending, and in which the
  records with one and the same value of the field stand in the order they had before.
  The comparator returns equal as soon as one of the two values is not a number, and on a
  list in which no record holds a number in the field the stage returns its input as it
  is. For a list that holds records of both kinds neither the order by the field nor the
  order the records had before is promised.
\<close>

theorem sort_stage_stable_numeric:
  "((\<forall>x\<in>set xs. numericKey fld x) \<longrightarrow>
       mset (sortStage fld ord xs) = mset xs
     \<and> sorted_wrt (keyOrder fld ord) (sortStage fld ord xs)
     \<and> (\<forall>k. filter (\<lambda>x. sortKey fld x = k) (sortStage fld ord xs)
             = filter (\<lambda>x. sortKey fld x = k) xs))
   \<and> (sortKey fld a = None \<or> sortKey fld b = None \<longrightarrow> compareFn fld ord a b = Fin 0)
   \<and> ((\<forall>x\<in>set xs. sortKey fld x = None) \<longrightarrow> sortStage fld ord xs = xs)
   \<and> ((\<forall>x\<in>set d. numericKey fld x) \<longrightarrow>
        sorted_wrt (keyOrder fld ord) (filteredAndSortedData d rf pf sf fld ord))
   \<and> (keyOrder fld Asc (sampleRecord r1 p1 i1 c1) (sampleRecord r2 p2 i2 c2)
        \<longleftrightarrow> (case fld of SortRank \<Rightarrow> r1 \<le> r2 | SortPercentile \<Rightarrow> p1 \<le> p2))
   \<and> (keyOrder fld Desc (sampleRecord r1 p1 i1 c1) (sampleRecord r2 p2 i2 c2)
        \<longleftrightarrow> (case fld of SortRank \<Rightarrow> r2 \<le> r1 | SortPercentile \<Rightarrow> p2 \<le> p1))"
proof -
  have a: "(\<forall>x\<in>set xs. numericKey fld x) \<longrightarrow>
       mset (sortStage fld ord xs) = mset xs
     \<and> sorted_wrt (keyOrder fld ord) (sortStage fld ord xs)
     \<and> (\<forall>k. filter (\<lambda>x. sortKey fld x = k) (sortStage fld ord xs)
             = filter (\<lambda>x. sortKey fld x = k) xs)"
    by (simp add: sortStage_def mset_array_sort sorted_array_sort stable_array_sort)
  have b: "sortKey fld a = None \<or> sortKey fld b = None \<longrightarrow> compareFn fld ord a b = Fin 0"
    by (auto simp: compareFn_def split: option.splits)
  have c: "(\<forall>x\<in>set xs. sortKey fld x = None) \<longrightarrow> sortStage fld ord xs = xs"
    by (simp add: sortStage_def array_sort_no_number)
  have f: "(\<forall>x\<in>set d. numericKey fld x) \<longrightarrow>
        sorted_wrt (keyOrder fld ord) (filteredAndSortedData d rf pf sf fld ord)"
  proof
    assume "\<forall>x\<in>set d. numericKey fld x"
    then have "\<forall>x\<in>set (searchStage sf (thresholdStage rf pf d)). numericKey fld x"
      by (simp add: searchStage_filter thresholdStage_filter)
    then show "sorted_wrt (keyOrder fld ord) (filteredAndSortedData d rf pf sf fld ord)"
      by (simp add: filteredAndSortedData_def sortStage_def sorted_array_sort)
  qed
  have d: "keyOrder fld Asc (sampleRecord r1 p1 i1 c1) (sampleRecord r2 p2 i2 c2)
        \<longleftrightarrow> (case fld of SortRank \<Rightarrow> r1 \<le> r2 | SortPercentile \<Rightarrow> p1 \<le> p2)"
    by (simp add: keyOrder_def sortKey_def sampleRecord_def ToNumber_def split: SortField.splits)
  have e: "keyOrder fld Desc (sampleRecord r1 p1 i1 c1) (sampleRecord r2 p2 i2 c2)
        \<longleftrightarrow> (case fld of SortRank \<Rightarrow> r2 \<le> r1 | SortPercentile \<Rightarrow> p2 \<le> p1)"
    by (simp add: keyOrder_def sortKey_def sampleRecord_def ToNumber_def split: SortField.splits)
  show ?thesis
    using a b c d e f by blast
qed

theorem sort_stage_stable_numeric_witness:
  "sortStage SortRank Asc
     [sampleRecord 7 50 ''first'' ''A'', sampleRecord 3 60 ''B'' ''B'',
      sampleRecord 7 40 ''second'' ''C'', sampleRecord 1 90 ''D'' ''D'']
   = [sampleRecord 1 90 ''D'' ''D'', sampleRecord 3 60 ''B'' ''B'',
      sampleRecord 7 50 ''first'' ''A'', sampleRecord 7 40 ''second'' ''C'']
   \<and> filter (\<lambda>x. sortKey SortRank x = Some (Fin 7))
       (sortStage SortRank Asc
          [sampleRecord 7 50 ''first'' ''A'', sampleRecord 3 60 ''B'' ''B'',
           sampleRecord 7 40 ''second'' ''C'', sampleRecord 1 90 ''D'' ''D''])
     = [sampleRecord 7 50 ''first'' ''A'', sampleRecord 7 40 ''second'' ''C'']
   \<and> sortStage SortPercentile Desc
        [(sampleRecord 7 50 ''first'' ''A'')\<lparr>Percentile := None\<rparr>,
         (sampleRecord 3 60 ''B'' ''B'')\<lparr>Percentile := None\<rparr>]
     = [(sampleRecord 7 50 ''first'' ''A'')\<lparr>Percentile := None\<rparr>,
        (sampleRecord 3 60 ''B'' ''B'')\<lparr>Percentile := None\<rparr>]
   \<and> compareFn SortPercentile Desc ((sampleRecord 7 50 ''first'' ''A'')\<lparr>Percentile := None\<rparr>)
        (sampleRecord 3 60 ''B'' ''B'') = Fin 0"
proof -
  have n: "\<forall>x\<in>set [sampleRecord 7 50 ''first'' ''A'', sampleRecord 3 60 ''B'' ''B'',
      sampleRecord 7 40 ''second'' ''C'', sampleRecord 1 90 ''D'' ''D'']. numericKey SortRank x"
    by (simp add: numericKey_def sortKey_def sampleRecord_def)
  have s: "sortStage SortRank Asc
     [sampleRecord 7 50 ''first'' ''A'', sampleRecord 3 60 ''B'' ''B'',
      sampleRecord 7 40 ''second'' ''C'', sampleRecord 1 90 ''D'' ''D'']
   = [sampleRecord 1 90 ''D'' ''D'', sampleRecord 3 60 ''B'' ''B'',
      sampleRecord 7 50 ''first'' ''A'', sampleRecord 7 40 ''second'' ''C'']"
    by (simp add: sortStage_def array_sort_def SortCompare_def compareFn_def sortKey_def
        sampleRecord_def)
  show ?thesis
    using sort_stage_stable_numeric [where xs =
        "[sampleRecord 7 50 ''first'' ''A'', sampleRecord 3 60 ''B'' ''B'',
          sampleRecord 7 40 ''second'' ''C'', sampleRecord 1 90 ''D'' ''D'']"
        and fld = SortRank and ord = Asc] n s
      sort_stage_stable_numeric [where xs =
        "[(sampleRecord 7 50 ''first'' ''A'')\<lparr>Percentile := None\<rparr>,
          (sampleRecord 3 60 ''B'' ''B'')\<lparr>Percentile := None\<rparr>]"
        and fld = SortPercentile and ord = Desc
        and a = "(sampleRecord 7 50 ''first'' ''A'')\<lparr>Percentile := None\<rparr>"
        and b = "sampleRecord 3 60 ''B'' ''B''"]
    by (simp add: sortKey_def sampleRecord_def)
qed

text \<open>
  The claim without the condition on the list fails. Sorted by percentile, ascending, the
  three rows with percentile 4, none and 3 come out as they went in: the rows that hold a
  number are not in ascending order, percentile 4 standing before percentile 3, although
  the comparator puts the first after the second.
\<close>

theorem sort_stage_mixed_counterexample:
  "sortStage SortPercentile Asc [rowFour, rowAbsent, rowThree] = [rowFour, rowAbsent, rowThree]
   \<and> \<not> sorted_wrt (keyOrder SortPercentile Asc)
         (filter (numericKey SortPercentile)
            (sortStage SortPercentile Asc [rowFour, rowAbsent, rowThree]))
   \<and> js_lt (Fin 0) (compareFn SortPercentile Asc rowFour rowThree)"
proof -
  have s: "sortStage SortPercentile Asc [rowFour, rowAbsent, rowThree]
             = [rowFour, rowAbsent, rowThree]"
    by (simp add: sortStage_def array_sort_def SortCompare_def compareFn_def sortKey_def
        rowFour_def rowAbsent_def rowThree_def sampleRecord_def)
  have n: "filter (numericKey SortPercentile) [rowFour, rowAbsent, rowThree] = [rowFour, rowThree]"
    by (simp add: numericKey_def sortKey_def rowFour_def rowAbsent_def rowThree_def
        sampleRecord_def)
  have k: "\<not> keyOrder SortPercentile Asc rowFour rowThree"
    by (simp add: keyOrder_def sortKey_def ToNumber_def rowFour_def rowThree_def
        sampleRecord_def)
  have c: "js_lt (Fin 0) (compareFn SortPercentile Asc rowFour rowThree)"
    by (simp add: mixed_rows_compare)
  show ?thesis
    using s n k c by simp
qed

text \<open>
  C8. What a render shows is a function of the dataset, the three filters, the sort
  criteria and the page number: two renders in states that agree on these show the same
  rows, the same number of matches and the same number of pages, whatever the other
  parts of the states and whatever was rendered before; a render repeated in the same
  state shows the same again.
\<close>

theorem render_deterministic:
  "(data s1 = data s2 \<and> rankFilter s1 = rankFilter s2
      \<and> percentileFilter s1 = percentileFilter s2 \<and> searchFilter s1 = searchFilter s2
      \<and> sortField s1 = sortField s2 \<and> sortOrder s1 = sortOrder s2
      \<and> currentPage s1 = currentPage s2 \<longrightarrow>
        fst (render s1 (hooksAfter before1)) = fst (render s2 (hooksAfter before2)))
   \<and> fst (render s1 (snd (render s1 (hooksAfter before1)))) = fst (render s1 (hooksAfter before1))
   \<and> fst (render s1 (hooksAfter before1))
       = queryPipeline (data s1) (rankFilter s1) (percentileFilter s1) (searchFilter s1)
           (sortField s1) (sortOrder s1) (currentPage s1)"
proof -
  have a: "fst (render st (hooksAfter sts))
       = queryPipeline (data st) (rankFilter st) (percentileFilter st) (searchFilter st)
           (sortField st) (sortOrder st) (currentPage st)" for st sts
    using hooks_ok_hooksAfter by (rule render_hooks_ok(2))
  have "hooks_ok (snd (render s1 (hooksAfter before1)))"
    using hooks_ok_hooksAfter by (rule render_hooks_ok(1))
  then have b: "fst (render s1 (snd (render s1 (hooksAfter before1))))
       = queryPipeline (data s1) (rankFilter s1) (percentileFilter s1) (searchFilter s1)
           (sortField s1) (sortOrder s1) (currentPage s1)"
    by (rule render_hooks_ok(2))
  show ?thesis
    using a [of s1 before1] a [of s2 before2] b by simp
qed

theorem render_deterministic_witness:
  "fst (render (loadedState [sampleRecord 5 50 ''A'' ''X'', sampleRecord 2 80 ''B'' ''Y'']) (hooksAfter []))
   = fst (render ((loadedState [sampleRecord 5 50 ''A'' ''X'', sampleRecord 2 80 ''B'' ''Y''])
                    \<lparr>loading := True, error := Some ''e''\<rparr>)
           (hooksAfter [loadedState [], (loadedState dataset41)\<lparr>currentPage := 2\<rparr>]))"
  using render_deterministic [of
      "loadedState [sampleRecord 5 50 ''A'' ''X'', sampleRecord 2 80 ''B'' ''Y'']"
      "(loadedState [sampleRecord 5 50 ''A'' ''X'', sampleRecord 2 80 ''B'' ''Y''])
          \<lparr>loading := True, error := Some ''e''\<rparr>"
      "[]" "[loadedState [], (loadedState dataset41)\<lparr>currentPage := 2\<rparr>]"]
  by (simp add: loadedState_def initialState_def)

text \<open>
  C9. A render leaves the dataset as it was: the array of the dataset, every array that
  existed before, and every record are unchanged, after one render and after any sequence
  of renders. The sorted array and the array of the visible rows are new arrays, and they
  hold what the pipeline computes from the contents of the dataset.
\<close>

theorem pipeline_never_mutates_input:
  "dataRef < length (arrays h) \<Longrightarrow>
     (objects (session_heap h dataRef inputs) = objects h
      \<and> readArray (session_heap h dataRef inputs) dataRef = readArray h dataRef
      \<and> contents (session_heap h dataRef inputs) dataRef = contents h dataRef
      \<and> (\<forall>a < length (arrays h). readArray (session_heap h dataRef inputs) a = readArray h a))
   \<and> (\<forall>filtered h1 visible h2.
         filteredAndSortedData_heap h dataRef rf pf sf fld ord = (filtered, h1)
         \<and> paginatedData_heap h1 filtered page = (visible, h2) \<longrightarrow>
           filtered \<noteq> dataRef \<and> visible \<noteq> dataRef
           \<and> objects h2 = objects h
           \<and> readArray h1 dataRef = readArray h dataRef
           \<and> readArray h2 dataRef = readArray h dataRef
           \<and> contents h2 filtered = filteredAndSortedData (contents h dataRef) rf pf sf fld ord
           \<and> contents h2 visible
               = paginatedData (filteredAndSortedData (contents h dataRef) rf pf sf fld ord) page)"
proof (intro conjI allI impI)
  assume d: "dataRef < length (arrays h)"
  have e: "extends h (session_heap h dataRef inputs)"
    using d by (rule session_heap_extends)
  show "objects (session_heap h dataRef inputs) = objects h"
    using e by (simp add: extends_def)
  show "readArray (session_heap h dataRef inputs) dataRef = readArray h dataRef"
    using e d by (simp add: extends_readArray)
  show "contents (session_heap h dataRef inputs) dataRef = contents h dataRef"
    using e d by (simp add: extends_contents)
  fix a assume "a < length (arrays h)"
  then show "readArray (session_heap h dataRef inputs) a = readArray h a"
    using e by (simp add: extends_readArray)
next
  fix filtered h1 visible h2
  assume d: "dataRef < length (arrays h)"
    and r: "filteredAndSortedData_heap h dataRef rf pf sf fld ord = (filtered, h1)
         \<and> paginatedData_heap h1 filtered page = (visible, h2)"
  note f = filteredAndSortedData_heap_correct [OF d conjunct1 [OF r]]
  note v = paginatedData_heap_correct [OF conjunct2 [OF r]]
  have e2: "extends h h2" using f(1) v(1) by (rule extends_trans)
  show "filtered \<noteq> dataRef" using f(2) d by simp
  show "visible \<noteq> dataRef" using v(2) f(1) d by (simp add: extends_def)
  show "objects h2 = objects h" using e2 by (simp add: extends_def)
  show "readArray h1 dataRef = readArray h dataRef" using f(1) d by (simp add: extends_readArray)
  show "readArray h2 dataRef = readArray h dataRef" using e2 d by (simp add: extends_readArray)
  show "contents h2 filtered = filteredAndSortedData (contents h dataRef) rf pf sf fld ord"
    using f(3,4) v(1) by (simp add: extends_contents)
  show "contents h2 visible
          = paginatedData (filteredAndSortedData (contents h dataRef) rf pf sf fld ord) page"
    using v(3) f(4) by simp
qed

theorem pipeline_never_mutates_input_witness:
  "arrays (session_heap sampleHeap 0 [([], [], [], SortRank, Asc, 1), ([], ''60'', [], SortPercentile, Desc, 1)])
     = [[0, 1, 2], [1, 0, 2], [1, 0, 2], [0, 1, 2], [0, 2], [0, 2]]
   \<and> readArray (session_heap sampleHeap 0
        [([], [], [], SortRank, Asc, 1), ([], ''60'', [], SortPercentile, Desc, 1)]) 0 = [0, 1, 2]
   \<and> objects (session_heap sampleHeap 0
        [([], [], [], SortRank, Asc, 1), ([], ''60'', [], SortPercentile, Desc, 1)])
       = objects sampleHeap"
proof -
  have d: "0 < length (arrays sampleHeap)" by (simp add: sampleHeap_def)
  have e: "arrays (session_heap sampleHeap 0
             [([], [], [], SortRank, Asc, 1), ([], ''60'', [], SortPercentile, Desc, 1)])
     = [[0, 1, 2], [1, 0, 2], [1, 0, 2], [0, 1, 2], [0, 2], [0, 2]]"
    by code_simp
  have r: "readArray sampleHeap 0 = [0, 1, 2]" by (simp add: sampleHeap_def readArray_def)
  show ?thesis
    using pipeline_never_mutates_input [OF d, of
        "[([], [], [], SortRank, Asc, 1), ([], ''60'', [], SortPercentile, Desc, 1)]"] e r
    by simp
qed

text \<open>
  C10. A rank filter that is not empty and that \<^verbatim>\<open>parseInt\<close> reads as NaN, with an empty
  percentile filter, makes the threshold stage drop every record, so that nothing
  matches; and likewise a percentile filter that \<^verbatim>\<open>parseFloat\<close> reads as NaN, with an
  empty rank filter.
\<close>

theorem nan_threshold_matches_nothing:
  "(rf \<noteq> [] \<and> parseInt rf = NaN \<longrightarrow>
      thresholdStage rf [] d = []
      \<and> queryPipeline d rf [] sf fld ord page = ([], 0, 0))
   \<and> (pf \<noteq> [] \<and> parseFloat pf = NaN \<longrightarrow>
      thresholdStage [] pf d = []
      \<and> queryPipeline d [] pf sf fld ord page = ([], 0, 0))"
proof -
  have r: "thresholdStage rf [] d = []" if "rf \<noteq> []" "parseInt rf = NaN"
    using that by (simp add: thresholdStage_def thresholdCallback_iff)
  have p: "thresholdStage [] pf d = []" if "pf \<noteq> []" "parseFloat pf = NaN"
    using that by (simp add: thresholdStage_def thresholdCallback_iff)
  have e: "queryPipeline d rf' pf' sf fld ord page = ([], 0, 0)"
    if "thresholdStage rf' pf' d = []" for rf' pf'
    using that
    by (simp add: queryPipeline_def filteredAndSortedData_def searchStage_def sortStage_def
        array_sort_def paginatedData_def slice_def totalPages_def Let_def)
  show ?thesis
    using r p e by blast
qed

theorem nan_threshold_matches_nothing_witness:
  "queryPipeline [sampleRecord 1 99.9 ''A'' ''X'', sampleRecord 50000 10 ''C'' ''Z'']
     ''.5'' [] [] SortRank Asc 1 = ([], 0, 0)
   \<and> queryPipeline [sampleRecord 1 99.9 ''A'' ''X'', sampleRecord 50000 10 ''C'' ''Z'']
     [] ''abc'' [] SortRank Asc 1 = ([], 0, 0)"
  using nan_threshold_matches_nothing [of "''.5''"
      "[sampleRecord 1 99.9 ''A'' ''X'', sampleRecord 50000 10 ''C'' ''Z'']" "[]" SortRank Asc 1
      "''abc''"]
  by (simp add: parseInt_point5 parseFloat_abc)

end
